theory Spec2Isabelle
  imports Main "HOL-Library.Char_ord" "HOL-Library.List_Lexorder" "HOL-Library.Product_Lexorder"
begin

section \<open>JavaScript values used by App.jsx\<close>

text \<open>
  A value that the source tests for truthiness and otherwise uses as a string
  (\<^verbatim>\<open>feature.properties.NAME\<close>, the \<^verbatim>\<open>name\<close> argument of
  \<^verbatim>\<open>selectConservancyByName\<close>) is a \<open>string option\<close>: \<open>None\<close> stands for
  \<^verbatim>\<open>undefined\<close> or \<^verbatim>\<open>null\<close>, \<open>Some s\<close> for the string \<open>s\<close>. A
  string is the list of the bytes of its UTF-8 encoding, for an ASCII string the list of
  its characters. The program compares strings, tests them for emptiness, concatenates
  them and hands them to string functions of the host, which are parameters of the model.
\<close>

definition truthy :: "string option \<Rightarrow> bool" where
  "truthy v = (case v of None \<Rightarrow> False | Some s \<Rightarrow> s \<noteq> [])"

text \<open>\<^verbatim>\<open>v || ""\<close>\<close>

definition or_empty :: "string option \<Rightarrow> string" where
  "or_empty v = (case v of None \<Rightarrow> [] | Some s \<Rightarrow> s)"

section \<open>The host's string functions on ASCII strings\<close>

text \<open>
  What \<^verbatim>\<open>trim\<close>, \<^verbatim>\<open>toLowerCase\<close> and \<^verbatim>\<open>replace(/\s+/g, " ")\<close> compute on
  strings of ASCII characters. The host's functions follow Unicode and are parameters of
  the model (see \<open>env\<close> below); these are used for the concrete inputs only, whose
  names are ASCII, and no general theorem depends on them. White
  space is tab, line feed, vertical tab, form feed, carriage return and space; the
  letters A to Z map to a to z; every maximal run of white space becomes one space.
\<close>

definition ascii_is_space :: "char \<Rightarrow> bool" where
  "ascii_is_space c = (c \<in> {CHR 0x09, CHR 0x0A, CHR 0x0B, CHR 0x0C, CHR 0x0D, CHR 0x20})"

definition ascii_trim :: "string \<Rightarrow> string" where
  "ascii_trim s = rev (dropWhile ascii_is_space (rev (dropWhile ascii_is_space s)))"

definition ascii_lower_char :: "char \<Rightarrow> char" where
  "ascii_lower_char c =
     (case map_of (zip ''ABCDEFGHIJKLMNOPQRSTUVWXYZ'' ''abcdefghijklmnopqrstuvwxyz'') c of
        None \<Rightarrow> c
      | Some d \<Rightarrow> d)"

definition ascii_toLowerCase :: "string \<Rightarrow> string" where
  "ascii_toLowerCase s = map ascii_lower_char s"

function ascii_replace_spaces :: "string \<Rightarrow> string" where
  "ascii_replace_spaces [] = []"
| "ascii_replace_spaces (c # cs) =
     (if ascii_is_space c then CHR '' '' # ascii_replace_spaces (dropWhile ascii_is_space cs)
      else c # ascii_replace_spaces cs)"
  by pat_completeness auto
termination
  by (relation "measure length") (auto simp: length_dropWhile_le less_Suc_eq_le)

section \<open>The boundary collection and the derived name list (lines 151-162)\<close>

record properties =
  NAME :: "string option"

record feature =
  properties :: "properties option"

record feature_collection =
  features :: "feature list option"

text \<open>\<^verbatim>\<open>f.properties && f.properties.NAME\<close>\<close>

definition feature_name :: "feature \<Rightarrow> string option" where
  "feature_name f = (case properties f of None \<Rightarrow> None | Some p \<Rightarrow> NAME p)"

text \<open>\<^verbatim>\<open>a.indexOf(v)\<close>: the first index holding \<open>v\<close>, or \<open>-1\<close>.\<close>

fun indexOf :: "'a list \<Rightarrow> 'a \<Rightarrow> int" where
  "indexOf [] v = -1"
| "indexOf (x # xs) v =
     (if x = v then 0 else (let r = indexOf xs v in if r < 0 then -1 else r + 1))"

text \<open>\<^verbatim>\<open>.filter((v, i, a) => a.indexOf(v) === i)\<close>\<close>

definition filter_first_index :: "'a list \<Rightarrow> 'a list" where
  "filter_first_index a =
     map (\<lambda>i. a ! i) (filter (\<lambda>i. indexOf a (a ! i) = int i) [0..<length a])"

text \<open>
  \<^verbatim>\<open>Array.prototype.sort(cmp)\<close>. For a consistent comparator ECMAScript fixes the
  result: the stable sorted permutation. Stable insertion sort computes it; an element
  goes in front of the first one that it does not follow.
\<close>

fun sort_insert :: "('a \<Rightarrow> 'a \<Rightarrow> int) \<Rightarrow> 'a \<Rightarrow> 'a list \<Rightarrow> 'a list" where
  "sort_insert cmp x [] = [x]"
| "sort_insert cmp x (y # ys) =
     (if cmp x y \<le> 0 then x # y # ys else y # sort_insert cmp x ys)"

definition array_sort :: "('a \<Rightarrow> 'a \<Rightarrow> int) \<Rightarrow> 'a list \<Rightarrow> 'a list" where
  "array_sort cmp xs = foldr (sort_insert cmp) xs []"

text \<open>
  The body of the effect of lines 151-162; the result is what
  \<^verbatim>\<open>setConservancyList\<close> receives. \<open>localeCompare\<close> is the host's
  \<^verbatim>\<open>String.prototype.localeCompare\<close>, a parameter.
\<close>

definition derive_names ::
  "(string \<Rightarrow> string \<Rightarrow> int) \<Rightarrow> feature_collection option \<Rightarrow> string list" where
  "derive_names localeCompare conservancyData =
     (case conservancyData of
        None \<Rightarrow> []
      | Some d \<Rightarrow>
          (case features d of
             None \<Rightarrow> []
           | Some fs \<Rightarrow>
               array_sort localeCompare
                 (map or_empty
                    (filter_first_index (filter truthy (map feature_name fs))))))"

text \<open>What \<^verbatim>\<open>sort\<close> asks of its comparator.\<close>

definition consistent_comparator :: "('a \<Rightarrow> 'a \<Rightarrow> int) \<Rightarrow> bool" where
  "consistent_comparator cmp =
     ((\<forall>a b. (cmp a b < 0) = (0 < cmp b a)) \<and>
      (\<forall>a b c. cmp a b \<le> 0 \<and> cmp b c \<le> 0 \<longrightarrow> cmp a c \<le> 0))"

text \<open>
  A comparator of the kind \<^verbatim>\<open>localeCompare\<close> is in the root locale, on ASCII
  letters: letters compare without regard to case first, and a lower-case letter
  precedes its upper-case form.
\<close>

definition collation_key :: "string \<Rightarrow> string \<times> bool list" where
  "collation_key s = (ascii_toLowerCase s, map (\<lambda>c. ascii_lower_char c \<noteq> c) s)"

definition ascii_localeCompare :: "string \<Rightarrow> string \<Rightarrow> int" where
  "ascii_localeCompare a b =
     (if collation_key a < collation_key b then -1
      else if collation_key b < collation_key a then 1 else 0)"

text \<open>The collection of the specification's example: regions named B, a, C.\<close>

definition example_features :: "feature list" where
  "example_features =
     [\<lparr>properties = Some \<lparr>NAME = Some ''B''\<rparr>\<rparr>,
      \<lparr>properties = Some \<lparr>NAME = Some ''a''\<rparr>\<rparr>,
      \<lparr>properties = Some \<lparr>NAME = Some ''C''\<rparr>\<rparr>]"


section \<open>The side panel (lines 11-110)\<close>

record tab =
  tab_id :: string
  label :: string
  suffix :: string

definition TAB_CONFIG :: "tab list" where
  "TAB_CONFIG =
     [\<lparr>tab_id = ''fc'', label = ''Fractional Cover'', suffix = ''_GroundCover''\<rparr>,
      \<lparr>tab_id = ''ndvi'', label = ''NDVI'', suffix = ''_NDVI''\<rparr>,
      \<lparr>tab_id = ''rain'', label = ''Rainfall'', suffix = ''_Rainfall''\<rparr>]"

text \<open>
  A parsed response body, as far as the panel looks at it: \<^verbatim>\<open>null\<close> (or another
  falsy value), or a chart document, which the panel hands to the plot unread.
\<close>

datatype json = JNull | JDocument nat

text \<open>What \<^verbatim>\<open>fetch\<close> settles with: a rejection, or a response with its
  \<^verbatim>\<open>ok\<close> flag and its body (\<open>None\<close> when the body is not JSON).\<close>

datatype response = Rejected | Response bool "json option"

datatype js_error = TypeError | NetworkError | FileNotFound | SyntaxError

text \<open>A handler that throws leaves the state as it was at the throw.\<close>

datatype 'a result = Done 'a | Threw js_error 'a

fun state_of :: "'a result \<Rightarrow> 'a" where
  "state_of (Done s) = s"
| "state_of (Threw e s) = s"

text \<open>
  The state of one mounted \<^verbatim>\<open>SidePanel\<close> (lines 19-22). \<open>inflight\<close> counts the
  fetches this instance has issued that have not settled yet; the continuations of an
  unmounted instance change nothing.
\<close>

record panel =
  activeTabId :: string
  figure :: json
  loading :: bool
  error :: bool
  inflight :: nat

definition initial_panel :: panel where
  "initial_panel =
     \<lparr>activeTabId = tab_id (hd TAB_CONFIG), figure = JNull, loading = False,
      error = False, inflight = 0\<rparr>"

text \<open>Line 36, the resource path.\<close>

definition fileName :: "string \<Rightarrow> string \<Rightarrow> tab \<Rightarrow> string" where
  "fileName BASE_URL conservancyName currentTab =
     BASE_URL @ ''figs/'' @ conservancyName @ ''/'' @ conservancyName @
     suffix currentTab @ ''.json''"

text \<open>
  The body of the effect of lines 24-54, up to the call of \<^verbatim>\<open>fetch\<close>: the new
  panel state and the URLs fetched. \<^verbatim>\<open>currentTab.suffix\<close> throws when
  \<^verbatim>\<open>find\<close> found no tab.
\<close>

definition fetch_effect :: "string \<Rightarrow> string \<Rightarrow> panel \<Rightarrow> (panel \<times> string list) result" where
  "fetch_effect BASE_URL conservancyName p =
     (if conservancyName = [] then Done (p, [])
      else
        let p1 = p\<lparr>loading := True, error := False, figure := JNull\<rparr> in
        (case find (\<lambda>t. tab_id t = activeTabId p1) TAB_CONFIG of
           None \<Rightarrow> Threw TypeError (p1, [])
         | Some currentTab \<Rightarrow>
             Done (p1\<lparr>inflight := inflight p1 + 1\<rparr>,
                   [fileName BASE_URL conservancyName currentTab])))"

text \<open>The first \<^verbatim>\<open>then\<close> of lines 41-44: the parsed body, or the error thrown.\<close>

definition fetch_result :: "response \<Rightarrow> js_error + json" where
  "fetch_result r =
     (case r of
        Rejected \<Rightarrow> Inl NetworkError
      | Response ok body \<Rightarrow>
          if \<not> ok then Inl FileNotFound
          else (case body of None \<Rightarrow> Inl SyntaxError | Some data \<Rightarrow> Inr data))"

text \<open>The continuations of lines 45-53, run when a fetch of this panel settles.\<close>

definition settle :: "response \<Rightarrow> panel \<Rightarrow> panel" where
  "settle r p =
     (case fetch_result r of
        Inr data \<Rightarrow> p\<lparr>figure := data, loading := False, inflight := inflight p - 1\<rparr>
      | Inl err \<Rightarrow> p\<lparr>error := True, loading := False, inflight := inflight p - 1\<rparr>)"

text \<open>What lines 81-106 render.\<close>

definition renders_loading :: "panel \<Rightarrow> bool" where
  "renders_loading p = loading p"

definition renders_not_found :: "panel \<Rightarrow> bool" where
  "renders_not_found p = error p"

definition renders_plot :: "panel \<Rightarrow> bool" where
  "renders_plot p = (figure p \<noteq> JNull \<and> \<not> loading p)"

section \<open>The map and the selection (lines 112-225)\<close>

text \<open>
  A Leaflet layer, with the methods the source tests for before it calls them; a method
  that is there does not throw. The two style objects set the same five options, so a
  layer's style is the one set last.
\<close>

record layer =
  layer_id :: nat
  has_setStyle :: bool
  has_bringToBack :: bool
  has_bringToFront :: bool
  has_getBounds :: bool

datatype style = conservancyStyle | highlightStyle

datatype map_call = BringToBack layer | BringToFront layer | FitBounds layer | InvalidateSize

text \<open>
  The build configuration and the host. \<open>BASE_URL\<close> is
  \<^verbatim>\<open>import.meta.env.BASE_URL\<close>. The string functions of the host are parameters, since
  they follow Unicode and the locale: \<open>localeCompare\<close> is
  \<^verbatim>\<open>String.prototype.localeCompare\<close>, \<open>trim\<close> is \<^verbatim>\<open>String.prototype.trim\<close>,
  \<open>toLowerCase\<close> is \<^verbatim>\<open>String.prototype.toLowerCase\<close> and \<open>replace_spaces\<close> is
  \<^verbatim>\<open>s.replace(/\s+/g, " ")\<close>. Nothing is assumed of them but what a theorem states.
\<close>

record env =
  BASE_URL :: string
  localeCompare :: "string \<Rightarrow> string \<Rightarrow> int"
  trim :: "string \<Rightarrow> string"
  toLowerCase :: "string \<Rightarrow> string"
  replace_spaces :: "string \<Rightarrow> string"

text \<open>Line 166:
  \<^verbatim>\<open>(s || "").toString().trim().toLowerCase().replace(/\s+/g, " ")\<close>\<close>

definition normalizeName :: "env \<Rightarrow> string option \<Rightarrow> string" where
  "normalizeName e s = replace_spaces e (toLowerCase e (trim e (or_empty s)))"

text \<open>
  The state of the mounted \<^verbatim>\<open>App\<close>: its React state, its refs, the styles of the
  layers, the calls made to the map, the pending timeouts (each with its delay; the
  debounce one with the name its closure holds), the panel if it is mounted, and the chart
  URLs fetched so far.
\<close>

record app =
  conservancyData :: "feature_collection option"
  conservancyList :: "string list"
  selectedConservancy :: string
  mapReady :: bool
  mapRef :: bool
  selectedLayerRef :: "layer option"
  layerMapRef :: "string \<Rightarrow> layer option"
  click_handler :: "layer \<Rightarrow> string option option"
  layer_style :: "layer \<Rightarrow> style"
  map_calls :: "map_call list"
  debounce_timer :: "(nat \<times> string) option"
  invalidate_timers :: "nat list"
  side_panel :: "panel option"
  chart_fetches :: "string list"

definition initial_app :: app where
  "initial_app =
     \<lparr>conservancyData = None, conservancyList = [], selectedConservancy = [],
      mapReady = False, mapRef = False, selectedLayerRef = None,
      layerMapRef = (\<lambda>k. None), click_handler = (\<lambda>l. None),
      layer_style = (\<lambda>l. conservancyStyle), map_calls = [],
      debounce_timer = None, invalidate_timers = [], side_panel = None,
      chart_fetches = []\<rparr>"

text \<open>Lines 173-177; a missing method is a \<^verbatim>\<open>TypeError\<close> that the
  \<^verbatim>\<open>try\<close> swallows.\<close>

definition revert_selected_layer :: "app \<Rightarrow> app" where
  "revert_selected_layer s =
     (case selectedLayerRef s of
        None \<Rightarrow> s
      | Some l \<Rightarrow>
          s\<lparr>layer_style :=
               (if has_setStyle l then (layer_style s)(l := conservancyStyle)
                else layer_style s),
            map_calls := map_calls s @ (if has_bringToBack l then [BringToBack l] else []),
            selectedLayerRef := None\<rparr>)"

text \<open>Lines 181-185.\<close>

definition lookup_layer ::
  "env \<Rightarrow> (string \<Rightarrow> layer option) \<Rightarrow> string \<Rightarrow> layer option" where
  "lookup_layer e m name =
     (case m name of
        Some l \<Rightarrow> Some l
      | None \<Rightarrow> m (normalizeName e (Some name)))"

text \<open>Lines 187-197.\<close>

definition highlight_layer :: "layer \<Rightarrow> app \<Rightarrow> app" where
  "highlight_layer l s =
     s\<lparr>selectedLayerRef := Some l,
       layer_style :=
         (if has_setStyle l then (layer_style s)(l := highlightStyle) else layer_style s),
       map_calls :=
         map_calls s @ (if has_bringToFront l then [BringToFront l] else []) @
         (if has_getBounds l then [FitBounds l] else []),
       invalidate_timers :=
         invalidate_timers s @ (if has_getBounds l then [300] else [])\<rparr>"

text \<open>Lines 168-198.\<close>

definition selectConservancyByName :: "env \<Rightarrow> string option \<Rightarrow> bool \<Rightarrow> app \<Rightarrow> app" where
  "selectConservancyByName e name updateState s =
     (let s1 = (if updateState then s\<lparr>selectedConservancy := or_empty name\<rparr> else s) in
      if \<not> mapRef s1 then s1
      else
        let s2 = revert_selected_layer s1 in
        if \<not> truthy name then s2
        else
          (case lookup_layer e (layerMapRef s2) (or_empty name) of
             None \<Rightarrow> s2
           | Some l \<Rightarrow> highlight_layer l s2))"

text \<open>Lines 200-206; \<open>name\<close> is the value of the event's target.\<close>

definition handleSelectConservancy :: "env \<Rightarrow> string option \<Rightarrow> app \<Rightarrow> app" where
  "handleSelectConservancy e name s =
     (let s1 = s\<lparr>selectedConservancy := or_empty name\<rparr> in
      if mapReady s1 \<and> mapRef s1 then selectConservancyByName e name False s1 else s1)"

text \<open>Lines 216-225; \<^verbatim>\<open>feature.properties.NAME\<close> throws when the feature has no
  properties.\<close>

definition onEachFeature :: "env \<Rightarrow> feature \<Rightarrow> layer \<Rightarrow> app \<Rightarrow> app result" where
  "onEachFeature e f l s =
     (case properties f of
        None \<Rightarrow> Threw TypeError s
      | Some p \<Rightarrow>
          let name = NAME p;
              s1 = (if truthy name
                    then s\<lparr>layerMapRef :=
                            (layerMapRef s)(or_empty name := Some l,
                                            normalizeName e name := Some l)\<rparr>
                    else s)
          in Done (s1\<lparr>click_handler := (click_handler s1)(l := Some name)\<rparr>))"

text \<open>Lines 277-283, the panel's \<^verbatim>\<open>onClose\<close>; here \<^verbatim>\<open>setStyle\<close> is called
  outside any \<^verbatim>\<open>try\<close>.\<close>

definition onClose :: "app \<Rightarrow> app result" where
  "onClose s =
     (let s1 = s\<lparr>selectedConservancy := []\<rparr> in
      case selectedLayerRef s1 of
        None \<Rightarrow> Done s1
      | Some l \<Rightarrow>
          if has_setStyle l
          then Done (s1\<lparr>layer_style := (layer_style s1)(l := conservancyStyle),
                        selectedLayerRef := None\<rparr>)
          else Threw TypeError s1)"

section \<open>Rendering and effects\<close>

text \<open>
  Lines 208-214, run when one of its dependencies changed: the cleanup of the previous
  run clears its timeout, then the body schedules a new one unless it returns early.
\<close>

definition debounce_effect :: "app \<Rightarrow> app" where
  "debounce_effect s =
     s\<lparr>debounce_timer :=
         (if \<not> mapReady s \<or> selectedConservancy s = [] then None
          else Some (300, selectedConservancy s))\<rparr>"

text \<open>Lines 151-162.\<close>

definition names_effect :: "env \<Rightarrow> app \<Rightarrow> app" where
  "names_effect e s =
     s\<lparr>conservancyList := derive_names (localeCompare e) (conservancyData s)\<rparr>"

text \<open>Runs the panel's fetch effect and records the fetches it issues.\<close>

definition run_fetch_effect :: "env \<Rightarrow> panel \<Rightarrow> app \<Rightarrow> app" where
  "run_fetch_effect e p s =
     (case state_of (fetch_effect (BASE_URL e) (selectedConservancy s) p) of
        (p', urls) \<Rightarrow> s\<lparr>side_panel := Some p', chart_fetches := chart_fetches s @ urls\<rparr>)"

text \<open>
  Line 274: the panel is mounted while the selected name is truthy. Mounting runs the
  fetch effect on the initial panel state; a change of the name re-runs it on the
  mounted panel; unmounting discards the panel state.
\<close>

definition render_panel :: "env \<Rightarrow> app \<Rightarrow> app \<Rightarrow> app" where
  "render_panel e prev s =
     (if selectedConservancy s = [] then s\<lparr>side_panel := None\<rparr>
      else
        (case side_panel s of
           None \<Rightarrow> run_fetch_effect e initial_panel s
         | Some p \<Rightarrow>
             if selectedConservancy s \<noteq> selectedConservancy prev
             then run_fetch_effect e p s else s))"

text \<open>
  What React does after a handler has run, with \<open>prev\<close> the state before the
  handler: the effects of \<^verbatim>\<open>App\<close> whose dependencies changed run again, and the
  panel is mounted, updated or unmounted.
\<close>

definition app_effects :: "env \<Rightarrow> app \<Rightarrow> app \<Rightarrow> app" where
  "app_effects e prev s =
     (let s1 = (if conservancyData s \<noteq> conservancyData prev then names_effect e s else s)
      in if selectedConservancy s1 \<noteq> selectedConservancy prev \<or>
            mapReady s1 \<noteq> mapReady prev \<or>
            conservancyData s1 \<noteq> conservancyData prev
         then debounce_effect s1 else s1)"

definition commit :: "env \<Rightarrow> app \<Rightarrow> app \<Rightarrow> app" where
  "commit e prev s = render_panel e prev (app_effects e prev s)"

section \<open>Events\<close>

datatype event =
    MapCreated
  | DataLoaded feature_collection
  | LayerAdded feature layer
  | LayerClick layer
  | DropdownChange string
  | PanelClose
  | TabClick string
  | DebounceFires
  | InvalidateFires
  | ChartFetchSettled response

text \<open>
  One event, from the handler to the effects. \<open>MapCreated\<close> is line 257,
  \<open>DataLoaded\<close> line 147, \<open>LayerAdded\<close> one call of \<^verbatim>\<open>onEachFeature\<close> by the map
  library, \<open>TabClick\<close> line 71 (there is a button for each tab of \<^verbatim>\<open>TAB_CONFIG\<close>
  only), \<open>DebounceFires\<close> the timeout of line 210, \<open>InvalidateFires\<close> the oldest timeout
  of line 195.
\<close>

definition step :: "env \<Rightarrow> event \<Rightarrow> app \<Rightarrow> app" where
  "step e ev s =
     (case ev of
        MapCreated \<Rightarrow> commit e s (s\<lparr>mapRef := True, mapReady := True\<rparr>)
      | DataLoaded d \<Rightarrow> commit e s (s\<lparr>conservancyData := Some d\<rparr>)
      | LayerAdded f l \<Rightarrow> state_of (onEachFeature e f l s)
      | LayerClick l \<Rightarrow>
          (case click_handler s l of
             None \<Rightarrow> s
           | Some name \<Rightarrow> commit e s (selectConservancyByName e name True s))
      | DropdownChange v \<Rightarrow> commit e s (handleSelectConservancy e (Some v) s)
      | PanelClose \<Rightarrow>
          (case side_panel s of
             None \<Rightarrow> s
           | Some p \<Rightarrow> commit e s (state_of (onClose s)))
      | TabClick t \<Rightarrow>
          (case side_panel s of
             None \<Rightarrow> s
           | Some p \<Rightarrow>
               if t \<notin> tab_id ` set TAB_CONFIG \<or> t = activeTabId p then s
               else run_fetch_effect e (p\<lparr>activeTabId := t\<rparr>) s)
      | DebounceFires \<Rightarrow>
          (case debounce_timer s of
             None \<Rightarrow> s
           | Some (delay, name) \<Rightarrow>
               selectConservancyByName e (Some name) False (s\<lparr>debounce_timer := None\<rparr>))
      | InvalidateFires \<Rightarrow>
          (case invalidate_timers s of
             [] \<Rightarrow> s
           | delay # rest \<Rightarrow>
               s\<lparr>invalidate_timers := rest, map_calls := map_calls s @ [InvalidateSize]\<rparr>)
      | ChartFetchSettled r \<Rightarrow>
          (case side_panel s of
             None \<Rightarrow> s
           | Some p \<Rightarrow>
               if inflight p = 0 then s else s\<lparr>side_panel := Some (settle r p)\<rparr>))"

definition run :: "env \<Rightarrow> event list \<Rightarrow> app \<Rightarrow> app" where
  "run e evs s = foldl (\<lambda>s ev. step e ev s) s evs"

inductive reachable :: "env \<Rightarrow> app \<Rightarrow> bool" for e :: env where
  reachable_initial: "reachable e initial_app"
| reachable_step: "reachable e s \<Longrightarrow> reachable e (step e ev s)"


section \<open>Invariants of the reachable states\<close>

text \<open>The map instance and the \<^verbatim>\<open>mapReady\<close> flag are set together, and a layer is
  referenced only once the map exists.\<close>

definition inv_map :: "app \<Rightarrow> bool" where
  "inv_map s = (mapReady s = mapRef s \<and> (selectedLayerRef s = None \<or> mapRef s))"

text \<open>Only the layer that \<^verbatim>\<open>selectedLayerRef\<close> holds can carry the highlight style.\<close>

definition inv_highlight :: "app \<Rightarrow> bool" where
  "inv_highlight s =
     (\<forall>l. layer_style s l = highlightStyle \<longrightarrow> selectedLayerRef s = Some l \<and> has_setStyle l)"

text \<open>The panel is mounted exactly while a name is selected, on a tab of
  \<^verbatim>\<open>TAB_CONFIG\<close>.\<close>

definition inv_panel :: "app \<Rightarrow> bool" where
  "inv_panel s =
     ((side_panel s = None) = (selectedConservancy s = []) \<and>
      (\<forall>p. side_panel s = Some p \<longrightarrow> activeTabId p \<in> tab_id ` set TAB_CONFIG))"

text \<open>A pending debounce timeout holds the current selection; every delay is 300 ms.\<close>

definition inv_timers :: "app \<Rightarrow> bool" where
  "inv_timers s =
     ((\<forall>d n. debounce_timer s = Some (d, n) \<longrightarrow>
          d = 300 \<and> n = selectedConservancy s \<and> n \<noteq> [] \<and> mapReady s) \<and>
      (\<forall>d \<in> set (invalidate_timers s). d = 300))"

definition app_inv :: "app \<Rightarrow> bool" where
  "app_inv s = (inv_map s \<and> inv_highlight s \<and> inv_panel s \<and> inv_timers s)"


section \<open>Concrete inputs\<close>

definition env0 :: env where
  "env0 =
     \<lparr>BASE_URL = ''/'', localeCompare = ascii_localeCompare, trim = ascii_trim,
      toLowerCase = ascii_toLowerCase, replace_spaces = ascii_replace_spaces\<rparr>"

definition named_feature :: "string \<Rightarrow> feature" where
  "named_feature n = \<lparr>properties = Some \<lparr>NAME = Some n\<rparr>\<rparr>"

text \<open>A polygon layer has all the methods; a marker has none of them.\<close>

definition polygon :: "nat \<Rightarrow> layer" where
  "polygon n =
     \<lparr>layer_id = n, has_setStyle = True, has_bringToBack = True, has_bringToFront = True,
      has_getBounds = True\<rparr>"

definition marker :: "nat \<Rightarrow> layer" where
  "marker n =
     \<lparr>layer_id = n, has_setStyle = False, has_bringToBack = False,
      has_bringToFront = False, has_getBounds = False\<rparr>"

text \<open>The map is created and two regions are drawn.\<close>

definition two_regions :: "event list" where
  "two_regions =
     [MapCreated,
      DataLoaded \<lparr>features = Some [named_feature ''Naapu'', named_feature ''Sera'']\<rparr>,
      LayerAdded (named_feature ''Naapu'') (polygon 1),
      LayerAdded (named_feature ''Sera'') (polygon 2)]"

text \<open>A feature without a name, a feature whose properties are null, and the second tab.\<close>

definition unnamed_feature :: feature where
  "unnamed_feature = \<lparr>properties = Some \<lparr>NAME = None\<rparr>\<rparr>"

definition null_properties_feature :: feature where
  "null_properties_feature = \<lparr>properties = None\<rparr>"

definition ndvi_tab :: tab where
  "ndvi_tab = \<lparr>tab_id = ''ndvi'', label = ''NDVI'', suffix = ''_NDVI''\<rparr>"


section \<open>The name list: helper lemmas\<close>

lemma indexOf_neg_iff: "(indexOf a v < 0) = (v \<notin> set a)"
  by (induction a) (auto simp: Let_def)

lemma indexOf_first:
  "indexOf a v = int i \<Longrightarrow> i < length a \<and> a ! i = v \<and> (\<forall>j<i. a ! j \<noteq> v)"
proof (induction a arbitrary: i)
  case Nil
  then show ?case by simp
next
  case (Cons x xs)
  show ?case
  proof (cases "x = v")
    case True
    with Cons.prems show ?thesis by simp
  next
    case False
    with Cons.prems have e: "indexOf xs v + 1 = int i" and r: "\<not> indexOf xs v < 0"
      by (simp_all add: Let_def split: if_splits)
    from e r obtain k where k: "i = Suc k" "indexOf xs v = int k"
      by (cases i) simp_all
    from Cons.IH [OF k(2)] have ih: "k < length xs" "xs ! k = v" "\<forall>j<k. xs ! j \<noteq> v"
      by simp_all
    have "\<forall>j<i. (x # xs) ! j \<noteq> v"
    proof (intro allI impI)
      fix j assume "j < i"
      then show "(x # xs) ! j \<noteq> v"
        using False ih(3) k(1) by (cases j) simp_all
    qed
    with ih k(1) show ?thesis by simp
  qed
qed

lemma indexOf_mem: 
  assumes "v \<in> set a" shows "\<exists>i. indexOf a v = int i"
proof -
  from assms have "0 \<le> indexOf a v" using indexOf_neg_iff [of a v] by simp
  then show ?thesis by (rule nonneg_int_cases) blast
qed

lemma set_filter_first_index_sub: "set (filter_first_index a) \<subseteq> set a"
proof
  fix v assume "v \<in> set (filter_first_index a)"
  then obtain i where "i < length a" "v = a ! i"
    unfolding filter_first_index_def by auto
  then show "v \<in> set a" by simp
qed

lemma set_filter_first_index_sup: "set a \<subseteq> set (filter_first_index a)"
proof
  fix v assume "v \<in> set a"
  then have "\<exists>i. indexOf a v = int i" by (rule indexOf_mem)
  then obtain i where i: "indexOf a v = int i" ..
  have l: "i < length a" using indexOf_first [OF i] by simp
  have v: "a ! i = v" using indexOf_first [OF i] by simp
  from i v have "indexOf a (a ! i) = int i" by (simp only:)
  with l have "i \<in> set (filter (\<lambda>i. indexOf a (a ! i) = int i) [0..<length a])"
    by simp
  then have "a ! i \<in> (\<lambda>i. a ! i) ` set (filter (\<lambda>i. indexOf a (a ! i) = int i) [0..<length a])"
    by (rule imageI)
  then have "a ! i \<in> set (filter_first_index a)"
    unfolding filter_first_index_def by (simp only: set_map)
  with v show "v \<in> set (filter_first_index a)" by (simp only:)
qed

lemma set_filter_first_index: "set (filter_first_index a) = set a"
  by (rule equalityI) (rule set_filter_first_index_sub, rule set_filter_first_index_sup)


lemma distinct_filter_first_index: "distinct (filter_first_index a)"
  unfolding filter_first_index_def
proof (rule iffD2 [OF distinct_map], intro conjI)
  show "distinct (filter (\<lambda>i. indexOf a (a ! i) = int i) [0..<length a])" by simp
  show "inj_on ((!) a) (set (filter (\<lambda>i. indexOf a (a ! i) = int i) [0..<length a]))"
  proof (rule inj_onI)
    fix x y
    assume "x \<in> set (filter (\<lambda>i. indexOf a (a ! i) = int i) [0..<length a])"
      and "y \<in> set (filter (\<lambda>i. indexOf a (a ! i) = int i) [0..<length a])"
      and e: "a ! x = a ! y"
    then have ix: "indexOf a (a ! x) = int x" and iy: "indexOf a (a ! y) = int y"
      by simp_all
    from e have "indexOf a (a ! x) = indexOf a (a ! y)" by (rule arg_cong)
    with ix iy have "int x = int y" by (simp only:)
    then show "x = y" by (simp only: of_nat_eq_iff)
  qed
qed


lemma set_sort_insert: "set (sort_insert cmp x xs) = insert x (set xs)"
  by (induction xs) auto

lemma set_array_sort: "set (array_sort cmp xs) = set xs"
  unfolding array_sort_def by (induction xs) (simp_all add: set_sort_insert)

lemma distinct_sort_insert: "distinct (sort_insert cmp x xs) = (x \<notin> set xs \<and> distinct xs)"
  by (induction xs) (auto simp: set_sort_insert)

lemma distinct_array_sort: "distinct (array_sort cmp xs) = distinct xs"
proof (induction xs)
  case Nil
  then show ?case by (simp add: array_sort_def)
next
  case (Cons x xs)
  have "array_sort cmp (x # xs) = sort_insert cmp x (array_sort cmp xs)"
    by (simp add: array_sort_def)
  with Cons show ?case by (simp add: distinct_sort_insert set_array_sort)
qed

lemma sorted_sort_insert:
  assumes "consistent_comparator cmp" "sorted_wrt (\<lambda>a b. cmp a b \<le> 0) xs"
  shows "sorted_wrt (\<lambda>a b. cmp a b \<le> 0) (sort_insert cmp x xs)"
  using assms(2)
proof (induction xs)
  case Nil
  then show ?case by simp
next
  case (Cons y ys)
  from assms(1) have anti: "\<And>a b. (cmp a b < 0) = (0 < cmp b a)"
    and tr: "\<And>a b c. cmp a b \<le> 0 \<Longrightarrow> cmp b c \<le> 0 \<Longrightarrow> cmp a c \<le> 0"
    unfolding consistent_comparator_def by blast+
  show ?case
  proof (cases "cmp x y \<le> 0")
    case True
    have "\<forall>z\<in>set ys. cmp x z \<le> 0"
    proof
      fix z assume "z \<in> set ys"
      with Cons.prems have "cmp y z \<le> 0" by simp
      with True show "cmp x z \<le> 0" by (rule tr)
    qed
    with True Cons.prems show ?thesis by simp
  next
    case False
    then have "cmp y x < 0" using anti [of y x] by simp
    then have "cmp y x \<le> 0" by simp
    with False Cons show ?thesis by (simp add: set_sort_insert)
  qed
qed

lemma sorted_array_sort:
  "consistent_comparator cmp \<Longrightarrow> sorted_wrt (\<lambda>a b. cmp a b \<le> 0) (array_sort cmp xs)"
  unfolding array_sort_def by (induction xs) (simp_all add: sorted_sort_insert)



lemma consistent_ascii_localeCompare: "consistent_comparator ascii_localeCompare"
  unfolding consistent_comparator_def ascii_localeCompare_def
  by (auto split: if_splits)

lemma set_truthy_names:
  "set (map or_empty (filter_first_index (filter truthy (map feature_name fs)))) =
     {s. s \<noteq> [] \<and> Some s \<in> feature_name ` set fs}"
proof -
  have "set (map or_empty (filter_first_index (filter truthy (map feature_name fs)))) =
      or_empty ` {v \<in> feature_name ` set fs. truthy v}"
    by (simp add: set_filter_first_index)
  also have "\<dots> = {s. s \<noteq> [] \<and> Some s \<in> feature_name ` set fs}"
  proof (intro equalityI subsetI)
    fix s assume "s \<in> or_empty ` {v \<in> feature_name ` set fs. truthy v}"
    then obtain v where v: "v \<in> feature_name ` set fs" "truthy v" "s = or_empty v" by blast
    then show "s \<in> {s. s \<noteq> [] \<and> Some s \<in> feature_name ` set fs}"
      by (cases v) (simp_all add: truthy_def or_empty_def)
  next
    fix s assume "s \<in> {s. s \<noteq> [] \<and> Some s \<in> feature_name ` set fs}"
    then have "Some s \<in> {v \<in> feature_name ` set fs. truthy v}" "s = or_empty (Some s)"
      by (simp_all add: truthy_def or_empty_def)
    then show "s \<in> or_empty ` {v \<in> feature_name ` set fs. truthy v}"
      by (metis imageI)
  qed
  finally show ?thesis .
qed

lemma distinct_truthy_names:
  "distinct (map or_empty (filter_first_index (filter truthy (map feature_name fs))))"
proof -
  have "inj_on or_empty (set (filter_first_index (filter truthy (map feature_name fs))))"
    by (rule inj_onI) (auto simp: set_filter_first_index truthy_def or_empty_def split: option.splits)
  then show ?thesis
    by (simp add: distinct_map distinct_filter_first_index)
qed

lemma example_names:
  "map or_empty (filter_first_index (filter truthy (map feature_name example_features))) =
     [''B'', ''a'', ''C'']"
  by (simp add: example_features_def filter_first_index_def feature_name_def truthy_def
      or_empty_def upt_rec [of 0] upt_rec [of 1] upt_rec [of 2] upt_rec [of "Suc 0"]
      upt_rec [of "Suc (Suc 0)"])

lemma ascii_order:
  "ascii_localeCompare ''a'' ''B'' < 0" "ascii_localeCompare ''B'' ''C'' < 0"
  "ascii_localeCompare ''a'' ''C'' \<le> 0"
  by (simp_all add: ascii_localeCompare_def collation_key_def ascii_toLowerCase_def
      ascii_lower_char_def)


section \<open>The map, the selection and the panel: helper lemmas\<close>

subsection \<open>What each handler leaves unchanged, and the invariants\<close>

lemmas commit_defs = commit_def app_effects_def Let_def render_panel_def run_fetch_effect_def
  names_effect_def debounce_effect_def

lemma commit_frame:
  "conservancyData (commit e prev s) = conservancyData s"
  "selectedConservancy (commit e prev s) = selectedConservancy s"
  "mapReady (commit e prev s) = mapReady s"
  "mapRef (commit e prev s) = mapRef s"
  "selectedLayerRef (commit e prev s) = selectedLayerRef s"
  "layerMapRef (commit e prev s) = layerMapRef s"
  "click_handler (commit e prev s) = click_handler s"
  "layer_style (commit e prev s) = layer_style s"
  "map_calls (commit e prev s) = map_calls s"
  "invalidate_timers (commit e prev s) = invalidate_timers s"
  by (simp_all add: commit_defs split: option.splits prod.splits)

lemma revert_frame:
  "conservancyData (revert_selected_layer s) = conservancyData s"
  "conservancyList (revert_selected_layer s) = conservancyList s"
  "selectedConservancy (revert_selected_layer s) = selectedConservancy s"
  "mapReady (revert_selected_layer s) = mapReady s"
  "mapRef (revert_selected_layer s) = mapRef s"
  "selectedLayerRef (revert_selected_layer s) = None"
  "layerMapRef (revert_selected_layer s) = layerMapRef s"
  "click_handler (revert_selected_layer s) = click_handler s"
  "debounce_timer (revert_selected_layer s) = debounce_timer s"
  "invalidate_timers (revert_selected_layer s) = invalidate_timers s"
  "side_panel (revert_selected_layer s) = side_panel s"
  "chart_fetches (revert_selected_layer s) = chart_fetches s"
  by (simp_all add: revert_selected_layer_def split: option.splits)

lemma revert_no_highlight:
  "inv_highlight s \<Longrightarrow> layer_style (revert_selected_layer s) l \<noteq> highlightStyle"
  by (auto simp: inv_highlight_def revert_selected_layer_def split: option.splits)

lemma highlight_frame:
  "conservancyData (highlight_layer l s) = conservancyData s"
  "conservancyList (highlight_layer l s) = conservancyList s"
  "selectedConservancy (highlight_layer l s) = selectedConservancy s"
  "mapReady (highlight_layer l s) = mapReady s"
  "mapRef (highlight_layer l s) = mapRef s"
  "selectedLayerRef (highlight_layer l s) = Some l"
  "layerMapRef (highlight_layer l s) = layerMapRef s"
  "click_handler (highlight_layer l s) = click_handler s"
  "debounce_timer (highlight_layer l s) = debounce_timer s"
  "side_panel (highlight_layer l s) = side_panel s"
  "chart_fetches (highlight_layer l s) = chart_fetches s"
  by (simp_all add: highlight_layer_def)

lemma select_frame:
  "conservancyData (selectConservancyByName e name u s) = conservancyData s"
  "conservancyList (selectConservancyByName e name u s) = conservancyList s"
  "selectedConservancy (selectConservancyByName e name u s) =
     (if u then or_empty name else selectedConservancy s)"
  "mapReady (selectConservancyByName e name u s) = mapReady s"
  "mapRef (selectConservancyByName e name u s) = mapRef s"
  "layerMapRef (selectConservancyByName e name u s) = layerMapRef s"
  "click_handler (selectConservancyByName e name u s) = click_handler s"
  "debounce_timer (selectConservancyByName e name u s) = debounce_timer s"
  "side_panel (selectConservancyByName e name u s) = side_panel s"
  "chart_fetches (selectConservancyByName e name u s) = chart_fetches s"
  by (simp_all add: selectConservancyByName_def Let_def revert_frame highlight_frame
      split: option.splits)

lemma revert_inv_highlight:
  "inv_highlight s \<Longrightarrow> inv_highlight (revert_selected_layer s)"
  using revert_no_highlight [of s] by (simp add: inv_highlight_def)

lemma highlight_inv_highlight:
  "(\<And>l'. layer_style s l' \<noteq> highlightStyle) \<Longrightarrow> inv_highlight (highlight_layer l s)"
  by (simp add: inv_highlight_def highlight_layer_def)

lemma set_selected_inv_highlight:
  "inv_highlight (s\<lparr>selectedConservancy := n\<rparr>) = inv_highlight s"
  by (simp add: inv_highlight_def)

lemma select_inv_highlight:
  assumes "inv_highlight s"
  shows "inv_highlight (selectConservancyByName e name u s)"
  using assms
  by (cases u; cases "mapRef s"; cases "truthy name";
      cases "lookup_layer e (layerMapRef s) (or_empty name)")
    (simp_all add: selectConservancyByName_def Let_def revert_frame
      set_selected_inv_highlight revert_inv_highlight highlight_inv_highlight
      revert_no_highlight)

lemma select_inv_map:
  assumes "inv_map s"
  shows "inv_map (selectConservancyByName e name u s)"
  using assms
  by (auto simp: inv_map_def selectConservancyByName_def Let_def revert_frame highlight_frame
      split: option.splits)

lemma handle_frame:
  "conservancyData (handleSelectConservancy e name s) = conservancyData s"
  "conservancyList (handleSelectConservancy e name s) = conservancyList s"
  "selectedConservancy (handleSelectConservancy e name s) = or_empty name"
  "mapReady (handleSelectConservancy e name s) = mapReady s"
  "mapRef (handleSelectConservancy e name s) = mapRef s"
  "layerMapRef (handleSelectConservancy e name s) = layerMapRef s"
  "click_handler (handleSelectConservancy e name s) = click_handler s"
  "debounce_timer (handleSelectConservancy e name s) = debounce_timer s"
  "side_panel (handleSelectConservancy e name s) = side_panel s"
  "chart_fetches (handleSelectConservancy e name s) = chart_fetches s"
  by (simp_all add: handleSelectConservancy_def Let_def select_frame)

lemma set_selected_inv_map:
  "inv_map (s\<lparr>selectedConservancy := n\<rparr>) = inv_map s"
  by (simp add: inv_map_def)

lemma handle_inv_highlight:
  "inv_highlight s \<Longrightarrow> inv_highlight (handleSelectConservancy e name s)"
  by (simp add: handleSelectConservancy_def Let_def select_inv_highlight
      set_selected_inv_highlight)

lemma handle_inv_map:
  "inv_map s \<Longrightarrow> inv_map (handleSelectConservancy e name s)"
  by (simp add: handleSelectConservancy_def Let_def select_inv_map set_selected_inv_map)

lemma onClose_frame:
  "conservancyData (state_of (onClose s)) = conservancyData s"
  "conservancyList (state_of (onClose s)) = conservancyList s"
  "selectedConservancy (state_of (onClose s)) = []"
  "mapReady (state_of (onClose s)) = mapReady s"
  "mapRef (state_of (onClose s)) = mapRef s"
  "layerMapRef (state_of (onClose s)) = layerMapRef s"
  "click_handler (state_of (onClose s)) = click_handler s"
  "map_calls (state_of (onClose s)) = map_calls s"
  "debounce_timer (state_of (onClose s)) = debounce_timer s"
  "invalidate_timers (state_of (onClose s)) = invalidate_timers s"
  "side_panel (state_of (onClose s)) = side_panel s"
  "chart_fetches (state_of (onClose s)) = chart_fetches s"
  by (simp_all add: onClose_def Let_def split: option.splits)

lemma onClose_inv_highlight:
  "inv_highlight s \<Longrightarrow> inv_highlight (state_of (onClose s))"
  by (auto simp: inv_highlight_def onClose_def Let_def split: option.splits)

lemma onClose_inv_map:
  "inv_map s \<Longrightarrow> inv_map (state_of (onClose s))"
  by (auto simp: inv_map_def onClose_def Let_def split: option.splits)

lemma onEachFeature_frame:
  "conservancyData (state_of (onEachFeature e f l s)) = conservancyData s"
  "conservancyList (state_of (onEachFeature e f l s)) = conservancyList s"
  "selectedConservancy (state_of (onEachFeature e f l s)) = selectedConservancy s"
  "mapReady (state_of (onEachFeature e f l s)) = mapReady s"
  "mapRef (state_of (onEachFeature e f l s)) = mapRef s"
  "selectedLayerRef (state_of (onEachFeature e f l s)) = selectedLayerRef s"
  "layer_style (state_of (onEachFeature e f l s)) = layer_style s"
  "map_calls (state_of (onEachFeature e f l s)) = map_calls s"
  "debounce_timer (state_of (onEachFeature e f l s)) = debounce_timer s"
  "invalidate_timers (state_of (onEachFeature e f l s)) = invalidate_timers s"
  "side_panel (state_of (onEachFeature e f l s)) = side_panel s"
  "chart_fetches (state_of (onEachFeature e f l s)) = chart_fetches s"
  by (simp_all add: onEachFeature_def Let_def split: option.splits)

lemma commit_inv_map: "inv_map (commit e prev s) = inv_map s"
  by (simp add: inv_map_def commit_frame)

lemma commit_inv_highlight: "inv_highlight (commit e prev s) = inv_highlight s"
  by (simp add: inv_highlight_def commit_frame)

lemma fetch_effect_tab:
  "activeTabId (fst (state_of (fetch_effect b n p))) = activeTabId p"
  by (simp add: fetch_effect_def Let_def split: option.splits)

lemma run_fetch_effect_panel:
  "\<exists>p'. side_panel (run_fetch_effect e p s) = Some p' \<and> activeTabId p' = activeTabId p"
proof (cases "state_of (fetch_effect (BASE_URL e) (selectedConservancy s) p)")
  case (Pair p' urls)
  with fetch_effect_tab [of "BASE_URL e" "selectedConservancy s" p] show ?thesis
    by (simp add: run_fetch_effect_def)
qed

lemma run_fetch_effect_frame:
  "selectedConservancy (run_fetch_effect e p s) = selectedConservancy s"
  "mapReady (run_fetch_effect e p s) = mapReady s"
  "debounce_timer (run_fetch_effect e p s) = debounce_timer s"
  "invalidate_timers (run_fetch_effect e p s) = invalidate_timers s"
  "layer_style (run_fetch_effect e p s) = layer_style s"
  "selectedLayerRef (run_fetch_effect e p s) = selectedLayerRef s"
  "mapRef (run_fetch_effect e p s) = mapRef s"
  "map_calls (run_fetch_effect e p s) = map_calls s"
  "conservancyData (run_fetch_effect e p s) = conservancyData s"
  "conservancyList (run_fetch_effect e p s) = conservancyList s"
  "layerMapRef (run_fetch_effect e p s) = layerMapRef s"
  "click_handler (run_fetch_effect e p s) = click_handler s"
  by (simp_all add: run_fetch_effect_def split: prod.splits)

lemma initial_tab: "activeTabId initial_panel \<in> tab_id ` set TAB_CONFIG"
  by (simp add: initial_panel_def TAB_CONFIG_def)

lemma render_panel_inv:
  assumes "\<And>p. side_panel s = Some p \<Longrightarrow> activeTabId p \<in> tab_id ` set TAB_CONFIG"
  shows "inv_panel (render_panel e prev s)"
proof (cases "selectedConservancy s = []")
  case True
  then show ?thesis by (simp add: render_panel_def inv_panel_def)
next
  case False
  show ?thesis
  proof (cases "side_panel s")
    case None
    obtain p' where p': "side_panel (run_fetch_effect e initial_panel s) = Some p'"
      "activeTabId p' = activeTabId initial_panel"
      using run_fetch_effect_panel by blast
    have "render_panel e prev s = run_fetch_effect e initial_panel s"
      using None False by (simp add: render_panel_def)
    with p' False initial_tab show ?thesis
      by (simp add: inv_panel_def run_fetch_effect_frame)
  next
    case (Some p)
    obtain p' where p': "side_panel (run_fetch_effect e p s) = Some p'"
      "activeTabId p' = activeTabId p"
      using run_fetch_effect_panel by blast
    have "render_panel e prev s = run_fetch_effect e p s \<or> render_panel e prev s = s"
      using Some False by (simp add: render_panel_def)
    then show ?thesis
    proof
      assume "render_panel e prev s = run_fetch_effect e p s"
      with p' False assms [OF Some] show ?thesis
        by (simp add: inv_panel_def run_fetch_effect_frame)
    next
      assume "render_panel e prev s = s"
      with Some False assms [OF Some] show ?thesis
        by (simp add: inv_panel_def)
    qed
  qed
qed

lemma app_effects_frame:
  "conservancyData (app_effects e prev s) = conservancyData s"
  "selectedConservancy (app_effects e prev s) = selectedConservancy s"
  "mapReady (app_effects e prev s) = mapReady s"
  "mapRef (app_effects e prev s) = mapRef s"
  "selectedLayerRef (app_effects e prev s) = selectedLayerRef s"
  "layerMapRef (app_effects e prev s) = layerMapRef s"
  "click_handler (app_effects e prev s) = click_handler s"
  "layer_style (app_effects e prev s) = layer_style s"
  "map_calls (app_effects e prev s) = map_calls s"
  "invalidate_timers (app_effects e prev s) = invalidate_timers s"
  "side_panel (app_effects e prev s) = side_panel s"
  "chart_fetches (app_effects e prev s) = chart_fetches s"
  by (simp_all add: app_effects_def Let_def names_effect_def debounce_effect_def)

lemma app_effects_timer:
  "debounce_timer (app_effects e prev s) =
     (if selectedConservancy s \<noteq> selectedConservancy prev \<or> mapReady s \<noteq> mapReady prev \<or>
         conservancyData s \<noteq> conservancyData prev
      then (if \<not> mapReady s \<or> selectedConservancy s = [] then None
            else Some (300, selectedConservancy s))
      else debounce_timer s)"
  by (simp add: app_effects_def Let_def names_effect_def debounce_effect_def)

lemma commit_inv_panel:
  assumes "\<And>p. side_panel s = Some p \<Longrightarrow> activeTabId p \<in> tab_id ` set TAB_CONFIG"
  shows "inv_panel (commit e prev s)"
  unfolding commit_def
  by (rule render_panel_inv) (simp add: app_effects_frame assms)

lemma render_panel_frame:
  "selectedConservancy (render_panel e prev s) = selectedConservancy s"
  "mapReady (render_panel e prev s) = mapReady s"
  "debounce_timer (render_panel e prev s) = debounce_timer s"
  "invalidate_timers (render_panel e prev s) = invalidate_timers s"
  by (simp_all add: render_panel_def run_fetch_effect_frame split: option.splits)

lemma render_panel_inv_timers:
  "inv_timers (render_panel e prev s) = inv_timers s"
  by (simp add: inv_timers_def render_panel_frame)

lemma commit_inv_timers:
  assumes "inv_timers prev" "debounce_timer s = debounce_timer prev"
    "\<forall>d \<in> set (invalidate_timers s). d = 300"
  shows "inv_timers (commit e prev s)"
  using assms
  unfolding commit_def render_panel_inv_timers
  by (auto simp: inv_timers_def app_effects_frame app_effects_timer)

lemma inv_map_cong:
  "mapReady t = mapReady s \<Longrightarrow> mapRef t = mapRef s \<Longrightarrow>
   selectedLayerRef t = selectedLayerRef s \<Longrightarrow> inv_map t = inv_map s"
  by (simp add: inv_map_def)

lemma inv_highlight_cong:
  "layer_style t = layer_style s \<Longrightarrow> selectedLayerRef t = selectedLayerRef s \<Longrightarrow>
   inv_highlight t = inv_highlight s"
  by (simp add: inv_highlight_def)

lemma inv_panel_cong:
  "side_panel t = side_panel s \<Longrightarrow> selectedConservancy t = selectedConservancy s \<Longrightarrow>
   inv_panel t = inv_panel s"
  by (simp add: inv_panel_def)

lemma inv_timers_cong:
  "debounce_timer t = debounce_timer s \<Longrightarrow> selectedConservancy t = selectedConservancy s \<Longrightarrow>
   mapReady t = mapReady s \<Longrightarrow> invalidate_timers t = invalidate_timers s \<Longrightarrow>
   inv_timers t = inv_timers s"
  by (simp add: inv_timers_def)

lemma inv_panel_tabs:
  "inv_panel s \<Longrightarrow> side_panel t = side_panel s \<Longrightarrow> side_panel t = Some p \<Longrightarrow>
   activeTabId p \<in> tab_id ` set TAB_CONFIG"
  by (simp add: inv_panel_def)

lemma inv_timers_300: "inv_timers s \<Longrightarrow> d \<in> set (invalidate_timers s) \<Longrightarrow> d = 300"
  by (simp add: inv_timers_def)

lemma select_invalidate:
  "\<exists>ys. invalidate_timers (selectConservancyByName e name u s) = invalidate_timers s @ ys \<and>
        set ys \<subseteq> {300}"
  by (cases u; cases "mapRef s"; cases "truthy name";
      cases "lookup_layer e (layerMapRef s) (or_empty name)")
    (auto simp: selectConservancyByName_def Let_def revert_frame highlight_layer_def)

lemma handle_invalidate:
  "\<exists>ys. invalidate_timers (handleSelectConservancy e name s) = invalidate_timers s @ ys \<and>
        set ys \<subseteq> {300}"
  using select_invalidate [of e name False "s\<lparr>selectedConservancy := or_empty name\<rparr>"]
  by (simp add: handleSelectConservancy_def Let_def)

lemma select_invalidate_300:
  assumes "inv_timers s"
  shows "\<forall>d \<in> set (invalidate_timers (selectConservancyByName e name u s)). d = 300"
proof
  fix d assume d: "d \<in> set (invalidate_timers (selectConservancyByName e name u s))"
  obtain ys where ys: "invalidate_timers (selectConservancyByName e name u s) =
      invalidate_timers s @ ys" "set ys \<subseteq> {300}"
    using select_invalidate by blast
  from d ys have "d \<in> set (invalidate_timers s) \<or> d \<in> set ys" by simp
  then show "d = 300" using ys(2) inv_timers_300 [OF assms] by blast
qed

lemma handle_invalidate_300:
  assumes "inv_timers s"
  shows "\<forall>d \<in> set (invalidate_timers (handleSelectConservancy e name s)). d = 300"
proof
  fix d assume d: "d \<in> set (invalidate_timers (handleSelectConservancy e name s))"
  obtain ys where ys: "invalidate_timers (handleSelectConservancy e name s) =
      invalidate_timers s @ ys" "set ys \<subseteq> {300}"
    using handle_invalidate by blast
  from d ys have "d \<in> set (invalidate_timers s) \<or> d \<in> set ys" by simp
  then show "d = 300" using ys(2) inv_timers_300 [OF assms] by blast
qed

lemma settle_tab: "activeTabId (settle r p) = activeTabId p"
  by (simp add: settle_def split: sum.splits)

lemma commit_inv:
  assumes "app_inv s" and "inv_map t" and "inv_highlight t"
    and "side_panel t = side_panel s" and "debounce_timer t = debounce_timer s"
    and "\<forall>d \<in> set (invalidate_timers t). d = 300"
  shows "app_inv (commit e s t)"
proof -
  from assms(1) have s: "inv_panel s" "inv_timers s" by (simp_all add: app_inv_def)
  have "inv_panel (commit e s t)"
    by (rule commit_inv_panel) (rule inv_panel_tabs [OF s(1) assms(4)])
  moreover have "inv_timers (commit e s t)"
    using s(2) assms(5,6) by (rule commit_inv_timers)
  ultimately show ?thesis
    using assms(2,3) by (simp add: app_inv_def commit_inv_map commit_inv_highlight)
qed

lemma step_MapCreated:
  assumes "app_inv s" shows "app_inv (step e MapCreated s)"
proof -
  let ?t = "s\<lparr>mapRef := True, mapReady := True\<rparr>"
  have "inv_map ?t" by (simp add: inv_map_def)
  moreover have "inv_highlight ?t = inv_highlight s" by (rule inv_highlight_cong) simp_all
  moreover have "\<forall>d \<in> set (invalidate_timers ?t). d = 300"
    using assms by (simp add: app_inv_def inv_timers_def)
  ultimately have "app_inv (commit e s ?t)"
    using assms by (intro commit_inv) (simp_all add: app_inv_def)
  then show ?thesis by (simp add: step_def)
qed

lemma step_DataLoaded:
  assumes "app_inv s" shows "app_inv (step e (DataLoaded d) s)"
proof -
  let ?t = "s\<lparr>conservancyData := Some d\<rparr>"
  have "inv_map ?t = inv_map s" by (rule inv_map_cong) simp_all
  moreover have "inv_highlight ?t = inv_highlight s" by (rule inv_highlight_cong) simp_all
  moreover have "\<forall>d \<in> set (invalidate_timers ?t). d = 300"
    using assms by (simp add: app_inv_def inv_timers_def)
  ultimately have "app_inv (commit e s ?t)"
    using assms by (intro commit_inv) (simp_all add: app_inv_def)
  then show ?thesis by (simp add: step_def)
qed

lemma step_LayerAdded:
  assumes "app_inv s" shows "app_inv (step e (LayerAdded f l) s)"
proof -
  let ?t = "state_of (onEachFeature e f l s)"
  have "inv_map ?t = inv_map s" by (rule inv_map_cong) (simp_all add: onEachFeature_frame)
  moreover have "inv_highlight ?t = inv_highlight s"
    by (rule inv_highlight_cong) (simp_all add: onEachFeature_frame)
  moreover have "inv_panel ?t = inv_panel s"
    by (rule inv_panel_cong) (simp_all add: onEachFeature_frame)
  moreover have "inv_timers ?t = inv_timers s"
    by (rule inv_timers_cong) (simp_all add: onEachFeature_frame)
  ultimately show ?thesis using assms by (simp add: step_def app_inv_def)
qed

lemma step_LayerClick:
  assumes "app_inv s" shows "app_inv (step e (LayerClick l) s)"
proof (cases "click_handler s l")
  case None
  with assms show ?thesis by (simp add: step_def)
next
  case (Some name)
  let ?t = "selectConservancyByName e name True s"
  from assms have i: "inv_map s" "inv_highlight s" "inv_timers s"
    by (simp_all add: app_inv_def)
  have "app_inv (commit e s ?t)"
    using assms
  proof (rule commit_inv)
    show "inv_map ?t" using i(1) by (rule select_inv_map)
    show "inv_highlight ?t" using i(2) by (rule select_inv_highlight)
    show "side_panel ?t = side_panel s" by (simp add: select_frame)
    show "debounce_timer ?t = debounce_timer s" by (simp add: select_frame)
    show "\<forall>d \<in> set (invalidate_timers ?t). d = 300" using i(3) by (rule select_invalidate_300)
  qed
  with Some show ?thesis by (simp add: step_def)
qed

lemma step_DropdownChange:
  assumes "app_inv s" shows "app_inv (step e (DropdownChange v) s)"
proof -
  let ?t = "handleSelectConservancy e (Some v) s"
  from assms have i: "inv_map s" "inv_highlight s" "inv_timers s"
    by (simp_all add: app_inv_def)
  have "app_inv (commit e s ?t)"
    using assms
  proof (rule commit_inv)
    show "inv_map ?t" using i(1) by (rule handle_inv_map)
    show "inv_highlight ?t" using i(2) by (rule handle_inv_highlight)
    show "side_panel ?t = side_panel s" by (simp add: handle_frame)
    show "debounce_timer ?t = debounce_timer s" by (simp add: handle_frame)
    show "\<forall>d \<in> set (invalidate_timers ?t). d = 300" using i(3) by (rule handle_invalidate_300)
  qed
  then show ?thesis by (simp add: step_def)
qed

lemma step_PanelClose:
  assumes "app_inv s" shows "app_inv (step e PanelClose s)"
proof (cases "side_panel s")
  case None
  with assms show ?thesis by (simp add: step_def)
next
  case (Some p)
  let ?t = "state_of (onClose s)"
  from assms have i: "inv_map s" "inv_highlight s" "inv_timers s"
    by (simp_all add: app_inv_def)
  have "app_inv (commit e s ?t)"
    using assms
  proof (rule commit_inv)
    show "inv_map ?t" using i(1) by (rule onClose_inv_map)
    show "inv_highlight ?t" using i(2) by (rule onClose_inv_highlight)
    show "side_panel ?t = side_panel s" by (simp add: onClose_frame)
    show "debounce_timer ?t = debounce_timer s" by (simp add: onClose_frame)
    show "\<forall>d \<in> set (invalidate_timers ?t). d = 300"
      using inv_timers_300 [OF i(3)] by (simp add: onClose_frame)
  qed
  with Some show ?thesis by (simp add: step_def)
qed

lemma step_TabClick:
  assumes "app_inv s" shows "app_inv (step e (TabClick t) s)"
proof (cases "side_panel s")
  case None
  with assms show ?thesis by (simp add: step_def)
next
  case (Some p)
  show ?thesis
  proof (cases "t \<notin> tab_id ` set TAB_CONFIG \<or> t = activeTabId p")
    case True
    with Some assms show ?thesis by (simp add: step_def)
  next
    case False
    let ?t = "run_fetch_effect e (p\<lparr>activeTabId := t\<rparr>) s"
    from False Some have st: "step e (TabClick t) s = ?t" by (simp add: step_def)
    from run_fetch_effect_panel [of e "p\<lparr>activeTabId := t\<rparr>" s]
    obtain p' where p': "side_panel ?t = Some p'" "activeTabId p' = t" by auto
    from assms Some have sel: "selectedConservancy s \<noteq> []"
      by (simp add: app_inv_def inv_panel_def)
    have "inv_panel ?t" using p' False sel
      by (simp add: inv_panel_def run_fetch_effect_frame)
    moreover have "inv_map ?t = inv_map s"
      by (rule inv_map_cong) (simp_all add: run_fetch_effect_frame)
    moreover have "inv_highlight ?t = inv_highlight s"
      by (rule inv_highlight_cong) (simp_all add: run_fetch_effect_frame)
    moreover have "inv_timers ?t = inv_timers s"
      by (rule inv_timers_cong) (simp_all add: run_fetch_effect_frame)
    ultimately show ?thesis unfolding st using assms by (simp add: app_inv_def)
  qed
qed

lemma step_DebounceFires:
  assumes "app_inv s" shows "app_inv (step e DebounceFires s)"
proof (cases "debounce_timer s")
  case None
  with assms show ?thesis by (simp add: step_def)
next
  case (Some dn)
  obtain d n where dn: "dn = (d, n)" by (cases dn)
  let ?s0 = "s\<lparr>debounce_timer := None\<rparr>"
  let ?t = "selectConservancyByName e (Some n) False ?s0"
  from Some dn have st: "step e DebounceFires s = ?t" by (simp add: step_def)
  from assms have i: "inv_map s" "inv_highlight s" "inv_timers s" "inv_panel s"
    by (simp_all add: app_inv_def)
  have "inv_map ?s0 = inv_map s" by (rule inv_map_cong) simp_all
  with i(1) have "inv_map ?t" by (simp add: select_inv_map)
  moreover have "inv_highlight ?s0 = inv_highlight s" by (rule inv_highlight_cong) simp_all
  with i(2) have "inv_highlight ?t" by (simp add: select_inv_highlight)
  moreover have "inv_panel ?t = inv_panel s"
    by (rule inv_panel_cong) (simp_all add: select_frame)
  moreover have "inv_timers ?t"
  proof -
    have "inv_timers ?s0" using i(3) by (simp add: inv_timers_def)
    then have "\<forall>d \<in> set (invalidate_timers ?t). d = 300" by (rule select_invalidate_300)
    then show ?thesis by (simp add: inv_timers_def select_frame)
  qed
  ultimately show ?thesis unfolding st using i(4) by (simp add: app_inv_def)
qed

lemma step_InvalidateFires:
  assumes "app_inv s" shows "app_inv (step e InvalidateFires s)"
proof (cases "invalidate_timers s")
  case Nil
  with assms show ?thesis by (simp add: step_def)
next
  case (Cons d rest)
  let ?t = "s\<lparr>invalidate_timers := rest, map_calls := map_calls s @ [InvalidateSize]\<rparr>"
  from Cons have st: "step e InvalidateFires s = ?t" by (simp add: step_def)
  have "inv_map ?t = inv_map s" by (rule inv_map_cong) simp_all
  moreover have "inv_highlight ?t = inv_highlight s" by (rule inv_highlight_cong) simp_all
  moreover have "inv_panel ?t = inv_panel s" by (rule inv_panel_cong) simp_all
  moreover have "inv_timers s \<Longrightarrow> inv_timers ?t" using Cons by (simp add: inv_timers_def)
  ultimately show ?thesis unfolding st using assms by (simp add: app_inv_def)
qed

lemma step_ChartFetchSettled:
  assumes "app_inv s" shows "app_inv (step e (ChartFetchSettled r) s)"
proof (cases "side_panel s")
  case None
  with assms show ?thesis by (simp add: step_def)
next
  case (Some p)
  show ?thesis
  proof (cases "inflight p = 0")
    case True
    with Some assms show ?thesis by (simp add: step_def)
  next
    case False
    let ?t = "s\<lparr>side_panel := Some (settle r p)\<rparr>"
    from False Some have st: "step e (ChartFetchSettled r) s = ?t" by (simp add: step_def)
    have "inv_map ?t = inv_map s" by (rule inv_map_cong) simp_all
    moreover have "inv_highlight ?t = inv_highlight s" by (rule inv_highlight_cong) simp_all
    moreover have "inv_timers ?t = inv_timers s" by (rule inv_timers_cong) simp_all
    moreover have "inv_panel s \<Longrightarrow> inv_panel ?t"
      using Some by (simp add: inv_panel_def settle_tab)
    ultimately show ?thesis unfolding st using assms by (simp add: app_inv_def)
  qed
qed

lemma step_inv: "app_inv s \<Longrightarrow> app_inv (step e ev s)"
  by (cases ev)
    (simp_all only: step_MapCreated step_DataLoaded step_LayerAdded step_LayerClick
      step_DropdownChange step_PanelClose step_TabClick step_DebounceFires
      step_InvalidateFires step_ChartFetchSettled)

lemma initial_inv: "app_inv initial_app"
  by (simp add: app_inv_def inv_map_def inv_highlight_def inv_panel_def inv_timers_def
      initial_app_def)

lemma reachable_inv: "reachable e s \<Longrightarrow> app_inv s"
  by (induction rule: reachable.induct) (simp_all add: initial_inv step_inv)

lemma reachable_run: "reachable e s \<Longrightarrow> reachable e (run e evs s)"
  unfolding run_def
  by (induction evs arbitrary: s) (simp_all add: reachable_step)

subsection \<open>Evaluation on concrete inputs\<close>

lemmas model_defs = step_def commit_def app_effects_def render_panel_def run_fetch_effect_def
  fetch_effect_def names_effect_def debounce_effect_def selectConservancyByName_def
  handleSelectConservancy_def onEachFeature_def onClose_def revert_selected_layer_def
  highlight_layer_def lookup_layer_def initial_app_def initial_panel_def TAB_CONFIG_def
  fileName_def truthy_def or_empty_def Let_def settle_def fetch_result_def

lemma env0_fields:
  "BASE_URL env0 = ''/''" "localeCompare env0 = ascii_localeCompare" "trim env0 = ascii_trim"
  "toLowerCase env0 = ascii_toLowerCase" "replace_spaces env0 = ascii_replace_spaces"
  by (simp_all add: env0_def)

lemmas norm_defs = normalizeName_def env0_fields ascii_trim_def ascii_toLowerCase_def
  ascii_lower_char_def ascii_is_space_def or_empty_def

lemma norm_examples:
  "normalizeName env0 (Some ''Naapu'') = ''naapu''"
  "normalizeName env0 (Some ''Sera'') = ''sera''"
  "normalizeName env0 (Some ''  SERA  '') = ''sera''"
  "normalizeName env0 (Some ''a b'') = ''a b''"
  "normalizeName env0 (Some ''A  B'') = ''a b''"
  by (simp_all add: norm_defs)

lemmas example_defs = norm_examples env0_fields named_feature_def polygon_def marker_def
  two_regions_def run_def

lemma reachable_two_regions: "reachable env0 (run env0 (two_regions @ evs) initial_app)"
  by (rule reachable_run) (rule reachable_initial)

subsection \<open>Single events\<close>

lemma select_as_handle:
  assumes "mapReady s = mapRef s"
  shows "selectConservancyByName e name True s = handleSelectConservancy e name s"
  using assms
  by (simp add: selectConservancyByName_def handleSelectConservancy_def Let_def)

lemma select_ref:
  "mapRef s \<Longrightarrow> truthy name \<Longrightarrow>
     selectedLayerRef (selectConservancyByName e name u s) =
       lookup_layer e (layerMapRef s) (or_empty name)"
  by (cases u; cases "lookup_layer e (layerMapRef s) (or_empty name)")
    (simp_all add: selectConservancyByName_def Let_def revert_frame highlight_frame)

lemma select_ref_no_map:
  "\<not> mapRef s \<Longrightarrow> selectedLayerRef (selectConservancyByName e name u s) = selectedLayerRef s"
  by (simp add: selectConservancyByName_def Let_def)

lemma commit_panel_open:
  "selectedConservancy s \<noteq> [] \<Longrightarrow> side_panel (commit e prev s) \<noteq> None"
proof -
  assume a: "selectedConservancy s \<noteq> []"
  have "inv_panel (commit e prev s) \<or> side_panel (commit e prev s) \<noteq> None"
  proof (cases "side_panel s")
    case None
    then have "inv_panel (commit e prev s)" by (intro commit_inv_panel) simp
    then show ?thesis ..
  next
    case (Some p)
    let ?t = "app_effects e prev s"
    have sp: "side_panel ?t = Some p" "selectedConservancy ?t \<noteq> []"
      using Some a by (simp_all add: app_effects_frame)
    obtain p' where "side_panel (run_fetch_effect e p ?t) = Some p'"
      using run_fetch_effect_panel by blast
    with sp have "side_panel (commit e prev s) \<noteq> None"
      by (simp add: commit_def render_panel_def)
    then show ?thesis ..
  qed
  with a show ?thesis by (auto simp: inv_panel_def commit_frame)
qed

lemma style_cases: "x \<noteq> highlightStyle \<Longrightarrow> x = conservancyStyle"
  by (cases x) simp_all

lemma commit_panel_closed:
  "selectedConservancy s = [] \<Longrightarrow> side_panel (commit e prev s) = None"
  by (simp add: commit_def render_panel_def app_effects_frame)

lemma commit_fetches_closed:
  "selectedConservancy s = [] \<Longrightarrow> chart_fetches (commit e prev s) = chart_fetches s"
  by (simp add: commit_def render_panel_def app_effects_frame)

lemma commit_list_same:
  "conservancyData s = conservancyData prev \<Longrightarrow>
     conservancyList (commit e prev s) = conservancyList s"
  by (simp add: commit_def render_panel_def app_effects_def Let_def debounce_effect_def
      run_fetch_effect_def split: option.splits prod.splits)

lemma commit_timer:
  "debounce_timer (commit e prev s) = debounce_timer (app_effects e prev s)"
  by (simp add: commit_def render_panel_frame)

lemma onClose_no_highlight:
  assumes "inv_highlight s"
  shows "layer_style (state_of (onClose s)) l \<noteq> highlightStyle"
proof (cases "selectedLayerRef s")
  case None
  with assms show ?thesis by (auto simp: inv_highlight_def onClose_def Let_def)
next
  case (Some l0)
  with assms show ?thesis
    by (cases "has_setStyle l0") (auto simp: inv_highlight_def onClose_def Let_def)
qed

lemma onClose_ref:
  "selectedLayerRef (state_of (onClose s)) =
     (case selectedLayerRef s of
        None \<Rightarrow> None
      | Some l \<Rightarrow> if has_setStyle l then None else Some l)"
  by (simp add: onClose_def Let_def split: option.splits)

lemma falsy_or_empty: "\<not> truthy nm \<Longrightarrow> or_empty nm = []"
  by (cases nm) (simp_all add: truthy_def or_empty_def)

lemma select_falsy_ref:
  assumes "inv_map s" and "\<not> truthy nm"
  shows "selectedLayerRef (selectConservancyByName e nm u s) = None"
  using assms
  by (cases u; cases "mapRef s")
    (auto simp: selectConservancyByName_def Let_def revert_frame inv_map_def)

lemma handle_post:
  "mapReady s \<and> mapRef s \<Longrightarrow>
     selectedLayerRef (handleSelectConservancy e name s) =
       (if truthy name then lookup_layer e (layerMapRef s) (or_empty name) else None) \<and>
     (\<forall>l. selectedLayerRef (handleSelectConservancy e name s) = Some l \<and> has_setStyle l \<longrightarrow>
          layer_style (handleSelectConservancy e name s) l = highlightStyle)"
  by (cases "truthy name"; cases "lookup_layer e (layerMapRef s) (or_empty name)")
    (simp_all add: handleSelectConservancy_def selectConservancyByName_def Let_def
      revert_frame highlight_layer_def)

lemma handle_stable:
  assumes "mapReady s \<and> mapRef s \<longrightarrow>
     selectedLayerRef s =
       (if truthy name then lookup_layer e (layerMapRef s) (or_empty name) else None) \<and>
     (\<forall>l. selectedLayerRef s = Some l \<and> has_setStyle l \<longrightarrow> layer_style s l = highlightStyle)"
  shows "layer_style (handleSelectConservancy e name s) = layer_style s \<and>
         selectedLayerRef (handleSelectConservancy e name s) = selectedLayerRef s"
proof (cases "mapReady s \<and> mapRef s")
  case False
  then show ?thesis by (auto simp: handleSelectConservancy_def Let_def)
next
  case True
  with assms have a: "selectedLayerRef s =
       (if truthy name then lookup_layer e (layerMapRef s) (or_empty name) else None)"
    and b: "\<forall>l. selectedLayerRef s = Some l \<and> has_setStyle l \<longrightarrow> layer_style s l = highlightStyle"
    by simp_all
  show ?thesis
  proof (cases "selectedLayerRef s")
    case None
    with a True show ?thesis
      by (cases "truthy name")
        (simp_all add: handleSelectConservancy_def selectConservancyByName_def Let_def
          revert_selected_layer_def)
  next
    case (Some l)
    with a have tr: "truthy name" and lk: "lookup_layer e (layerMapRef s) (or_empty name) = Some l"
      by (simp_all split: if_splits)
    from b Some have "has_setStyle l \<Longrightarrow> (layer_style s)(l := highlightStyle) = layer_style s"
      by (simp add: fun_upd_idem)
    with True Some tr lk show ?thesis
      by (simp add: handleSelectConservancy_def selectConservancyByName_def Let_def
          revert_selected_layer_def highlight_layer_def)
  qed
qed

lemma commit_panel_iff:
  "(side_panel (commit e prev s) = None) = (selectedConservancy s = [])"
  using commit_panel_closed [of s e prev] commit_panel_open [of s e prev] by blast

lemma commit_panel_same:
  assumes "selectedConservancy s = selectedConservancy prev"
    and "side_panel s = side_panel prev"
    and "(side_panel prev = None) = (selectedConservancy prev = [])"
  shows "side_panel (commit e prev s) = side_panel prev"
  using assms
  by (cases "side_panel prev")
    (simp_all add: commit_def render_panel_def app_effects_frame)

lemma find_TAB_CONFIG:
  "t \<in> set TAB_CONFIG \<Longrightarrow> find (\<lambda>x. tab_id x = tab_id t) TAB_CONFIG = Some t"
  by (auto simp: TAB_CONFIG_def)

lemma settle_failure:
  "fetch_result r = Inl err \<Longrightarrow>
     settle r p = p\<lparr>error := True, loading := False, inflight := inflight p - 1\<rparr>"
  by (simp add: settle_def)



subsection \<open>Registration of the layers\<close>







subsection \<open>The name list in the state\<close>

lemma commit_list:
  "conservancyList (commit e prev s) =
     (if conservancyData s \<noteq> conservancyData prev
      then derive_names (localeCompare e) (conservancyData s) else conservancyList s)"
  by (simp add: commit_def render_panel_def app_effects_def Let_def debounce_effect_def
      names_effect_def run_fetch_effect_def split: option.splits prod.splits)

lemma step_names:
  assumes "conservancyList s = derive_names (localeCompare e) (conservancyData s)"
  shows "conservancyList (step e ev s) =
         derive_names (localeCompare e) (conservancyData (step e ev s))"
proof (cases ev)
  case MapCreated
  with assms show ?thesis by (simp add: step_def commit_list commit_frame)
next
  case (DataLoaded d)
  with assms show ?thesis by (simp add: step_def commit_list commit_frame)
next
  case (LayerAdded f l)
  with assms show ?thesis by (simp add: step_def onEachFeature_frame)
next
  case (LayerClick l)
  with assms show ?thesis
    by (cases "click_handler s l") (simp_all add: step_def commit_list commit_frame select_frame)
next
  case (DropdownChange v)
  with assms show ?thesis by (simp add: step_def commit_list commit_frame handle_frame)
next
  case PanelClose
  with assms show ?thesis
    by (cases "side_panel s") (simp_all add: step_def commit_list commit_frame onClose_frame)
next
  case (TabClick t)
  with assms show ?thesis
    by (cases "side_panel s") (simp_all add: step_def run_fetch_effect_frame)
next
  case DebounceFires
  with assms show ?thesis
    by (cases "debounce_timer s") (auto simp: step_def select_frame)
next
  case InvalidateFires
  with assms show ?thesis by (cases "invalidate_timers s") (simp_all add: step_def)
next
  case (ChartFetchSettled r)
  with assms show ?thesis by (cases "side_panel s") (simp_all add: step_def)
qed

lemma reachable_names:
  "reachable e s \<Longrightarrow> conservancyList s = derive_names (localeCompare e) (conservancyData s)"
proof (induction rule: reachable.induct)
  case reachable_initial
  show ?case by (simp add: initial_app_def derive_names_def)
next
  case (reachable_step s ev)
  then show ?case by (simp add: step_names)
qed
subsection \<open>The timeouts of line 195\<close>




subsection \<open>The unguarded call in \<^verbatim>\<open>onClose\<close>\<close>

text \<open>
  Line 280 has no \<^verbatim>\<open>try\<close>: when the referenced layer has no \<^verbatim>\<open>setStyle\<close>,
  \<^verbatim>\<open>onClose\<close> throws after it has cleared the selected name, and line 281 is not
  reached. Such a layer never carries the highlight style; a marker is one.
\<close>

lemma onClose_without_setStyle_throws:
  "selectedLayerRef s = Some l \<Longrightarrow> \<not> has_setStyle l \<Longrightarrow>
     onClose s = Threw TypeError (s\<lparr>selectedConservancy := []\<rparr>)"
  by (simp add: onClose_def Let_def)

lemma marker_close_keeps_reference:
  "selectedLayerRef
     (run env0 [MapCreated, LayerAdded (named_feature ''Post'') (marker 5), LayerClick (marker 5)]
        initial_app) = Some (marker 5) \<and>
   selectedLayerRef
     (run env0
        [MapCreated, LayerAdded (named_feature ''Post'') (marker 5), LayerClick (marker 5),
         PanelClose]
        initial_app) = Some (marker 5) \<and>
   selectedConservancy
     (run env0
        [MapCreated, LayerAdded (named_feature ''Post'') (marker 5), LayerClick (marker 5),
         PanelClose]
        initial_app) = []"
  by (simp add: model_defs example_defs norm_defs)

subsection \<open>A click on a feature that has properties but no name\<close>

text \<open>
  A feature with a properties object whose \<^verbatim>\<open>NAME\<close> is missing or empty gets a click
  handler, and in every reachable state a click on its layer empties the selected name, drops
  the reference, leaves every layer in the default style and unmounts the panel.
\<close>

lemma click_without_name_clears:
  assumes "properties f = Some p" and "\<not> truthy (NAME p)"
    and "reachable e t" and "click_handler t l = Some (NAME p)"
  shows "click_handler (step e (LayerAdded f l) s) l = Some (NAME p) \<and>
         selectedConservancy (step e (LayerClick l) t) = [] \<and>
         selectedLayerRef (step e (LayerClick l) t) = None \<and>
         (\<forall>l'. layer_style (step e (LayerClick l) t) l' = conservancyStyle) \<and>
         side_panel (step e (LayerClick l) t) = None"
proof -
  from assms(3) have i: "inv_map t" "inv_highlight t"
    using reachable_inv by (simp_all add: app_inv_def)
  let ?u = "selectConservancyByName e (NAME p) True t"
  have reg: "click_handler (step e (LayerAdded f l) s) l = Some (NAME p)"
    using assms(1) by (simp add: step_def onEachFeature_def Let_def)
  have st: "step e (LayerClick l) t = commit e t ?u"
    using assms(4) by (simp add: step_def)
  have sel: "selectedConservancy ?u = []"
    using assms(2) by (simp add: select_frame falsy_or_empty)
  have ref: "selectedLayerRef ?u = None" using i(1) assms(2) by (rule select_falsy_ref)
  have "inv_highlight ?u" using i(2) by (rule select_inv_highlight)
  with ref have "\<forall>l'. layer_style ?u l' \<noteq> highlightStyle"
    by (auto simp: inv_highlight_def)
  then have style: "\<forall>l'. layer_style ?u l' = conservancyStyle"
    by (simp add: style_cases)
  have closed: "side_panel (commit e t ?u) = None" using sel by (rule commit_panel_closed)
  show ?thesis
    unfolding st using reg sel ref style closed by (simp add: commit_frame)
qed

lemma click_without_name_clears_example:
  "reachable env0
     (run env0 (two_regions @ [LayerAdded unnamed_feature (polygon 3), LayerClick (polygon 1)])
        initial_app) \<and>
   selectedConservancy
     (run env0 (two_regions @ [LayerAdded unnamed_feature (polygon 3), LayerClick (polygon 1)])
        initial_app) = ''Naapu'' \<and>
   click_handler
     (run env0 (two_regions @ [LayerAdded unnamed_feature (polygon 3), LayerClick (polygon 1)])
        initial_app) (polygon 3) = Some None \<and>
   click_handler (step env0 (LayerAdded unnamed_feature (polygon 3)) initial_app) (polygon 3) =
     Some None \<and>
   selectedConservancy
     (step env0 (LayerClick (polygon 3))
       (run env0 (two_regions @ [LayerAdded unnamed_feature (polygon 3), LayerClick (polygon 1)])
          initial_app)) = [] \<and>
   selectedLayerRef
     (step env0 (LayerClick (polygon 3))
       (run env0 (two_regions @ [LayerAdded unnamed_feature (polygon 3), LayerClick (polygon 1)])
          initial_app)) = None \<and>
   side_panel
     (step env0 (LayerClick (polygon 3))
       (run env0 (two_regions @ [LayerAdded unnamed_feature (polygon 3), LayerClick (polygon 1)])
          initial_app)) = None"
proof -
  let ?t = "run env0 (two_regions @ [LayerAdded unnamed_feature (polygon 3), LayerClick (polygon 1)])
      initial_app"
  have r: "reachable env0 ?t" by (rule reachable_two_regions)
  have f: "properties unnamed_feature = Some \<lparr>NAME = None\<rparr>" by (simp add: unnamed_feature_def)
  have n: "\<not> truthy (NAME \<lparr>NAME = None\<rparr>)" by (simp add: truthy_def)
  have s: "selectedConservancy ?t = ''Naapu''"
    by (simp add: model_defs example_defs unnamed_feature_def)
  have h: "click_handler ?t (polygon 3) = Some (NAME \<lparr>NAME = None\<rparr>)"
    by (simp add: model_defs example_defs unnamed_feature_def)
  note t = click_without_name_clears [OF f n r h, where s = initial_app]
  from t have c1: "click_handler (step env0 (LayerAdded unnamed_feature (polygon 3)) initial_app)
      (polygon 3) = Some None" by simp
  from t have c2: "selectedConservancy (step env0 (LayerClick (polygon 3)) ?t) = []" by blast
  from t have c3: "selectedLayerRef (step env0 (LayerClick (polygon 3)) ?t) = None" by blast
  from t have c4: "side_panel (step env0 (LayerClick (polygon 3)) ?t) = None" by blast
  from h have h': "click_handler ?t (polygon 3) = Some None" by simp
  show ?thesis by (intro conjI) (rule r s h' c1 c2 c3 c4)+
qed

section \<open>The claims\<close>

text \<open>
  Claim C1, as the code has it. In every reachable state with a loaded collection that has
  a feature array, the name list is the list derived from the collection: it holds every
  distinct truthy (non-empty) \<^verbatim>\<open>NAME\<close> value exactly once, compared
  case-sensitively, and nothing else, and it is sorted by \<^verbatim>\<open>localeCompare\<close>, for
  every consistent comparator; and a comparator that puts a before B before C, as
  locale-aware comparison does, yields exactly a, B, C for the regions B, a, C.
\<close>

theorem derive_names_unique_sorted:
  assumes "consistent_comparator (localeCompare e)" and "reachable e s"
    and "conservancyData s = Some d" and "features d = Some fs"
  shows "conservancyList s = derive_names (localeCompare e) (Some d) \<and>
         distinct (conservancyList s) \<and>
         set (conservancyList s) = {n. n \<noteq> [] \<and> Some n \<in> feature_name ` set fs} \<and>
         sorted_wrt (\<lambda>a b. localeCompare e a b \<le> 0) (conservancyList s) \<and>
         (localeCompare e ''a'' ''B'' < 0 \<and> localeCompare e ''B'' ''C'' < 0 \<longrightarrow>
            derive_names (localeCompare e) (Some \<lparr>features = Some example_features\<rparr>) =
              [''a'', ''B'', ''C''])"
proof (intro conjI impI)
  let ?cmp = "localeCompare e"
  from assms(2,3) show l: "conservancyList s = derive_names ?cmp (Some d)"
    using reachable_names by simp
  from assms(4) have d: "derive_names ?cmp (Some d) =
      array_sort ?cmp (map or_empty (filter_first_index (filter truthy (map feature_name fs))))"
    by (simp add: derive_names_def)
  show "distinct (conservancyList s)"
    unfolding l d by (simp only: distinct_array_sort distinct_truthy_names)
  show "set (conservancyList s) = {n. n \<noteq> [] \<and> Some n \<in> feature_name ` set fs}"
    unfolding l d by (simp only: set_array_sort set_truthy_names)
  show "sorted_wrt (\<lambda>a b. ?cmp a b \<le> 0) (conservancyList s)"
    unfolding l d using assms(1) by (rule sorted_array_sort)
next
  let ?cmp = "localeCompare e"
  assume o: "?cmp ''a'' ''B'' < 0 \<and> ?cmp ''B'' ''C'' < 0"
  from assms(1) have anti: "\<And>a b. (?cmp a b < 0) = (0 < ?cmp b a)"
    and tr: "\<And>a b c. ?cmp a b \<le> 0 \<Longrightarrow> ?cmp b c \<le> 0 \<Longrightarrow> ?cmp a c \<le> 0"
    unfolding consistent_comparator_def by blast+
  from o have ab: "?cmp ''a'' ''B'' \<le> 0" and bc: "?cmp ''B'' ''C'' \<le> 0" by simp_all
  from ab bc have ac: "?cmp ''a'' ''C'' \<le> 0" by (rule tr)
  from o have ba: "\<not> ?cmp ''B'' ''a'' \<le> 0" using anti [of "''a''" "''B''"] by simp
  have "derive_names ?cmp (Some \<lparr>features = Some example_features\<rparr>) =
      array_sort ?cmp [''B'', ''a'', ''C'']"
    by (simp add: derive_names_def example_names)
  also have "\<dots> = [''a'', ''B'', ''C'']"
    using ac ba bc by (simp add: array_sort_def)
  finally show "derive_names ?cmp (Some \<lparr>features = Some example_features\<rparr>) =
      [''a'', ''B'', ''C'']" .
qed

theorem derive_names_unique_sorted_witness:
  "consistent_comparator (localeCompare env0) \<and>
   reachable env0 (run env0 [DataLoaded \<lparr>features = Some example_features\<rparr>] initial_app) \<and>
   conservancyData (run env0 [DataLoaded \<lparr>features = Some example_features\<rparr>] initial_app) =
     Some \<lparr>features = Some example_features\<rparr> \<and>
   localeCompare env0 ''a'' ''B'' < 0 \<and> localeCompare env0 ''B'' ''C'' < 0 \<and>
   conservancyList (run env0 [DataLoaded \<lparr>features = Some example_features\<rparr>] initial_app) =
     [''a'', ''B'', ''C'']"
proof -
  let ?d = "\<lparr>features = Some example_features\<rparr>"
  let ?s = "run env0 [DataLoaded ?d] initial_app"
  have c: "consistent_comparator (localeCompare env0)"
    using consistent_ascii_localeCompare by (simp add: env0_def)
  have r: "reachable env0 ?s" by (rule reachable_run) (rule reachable_initial)
  have d: "conservancyData ?s = Some ?d"
    by (simp add: run_def step_def commit_frame)
  have f: "features ?d = Some example_features" by simp
  have o: "localeCompare env0 ''a'' ''B'' < 0" "localeCompare env0 ''B'' ''C'' < 0"
    using ascii_order by (simp_all add: env0_def)
  note t = derive_names_unique_sorted [OF c r d f]
  from t o have l: "conservancyList ?s = [''a'', ''B'', ''C'']" by simp
  show ?thesis by (intro conjI) (rule c r d o l)+
qed

text \<open>
  The claim as stated fails for an empty name: \<^verbatim>\<open>filter(Boolean)\<close> drops it, so the
  list does not contain that \<^verbatim>\<open>NAME\<close> value.
\<close>

theorem derive_names_drops_empty_name:
  "feature_name \<lparr>properties = Some \<lparr>NAME = Some ''''\<rparr>\<rparr> = Some '''' \<and>
   conservancyList
     (run env0
        [DataLoaded \<lparr>features = Some [\<lparr>properties = Some \<lparr>NAME = Some ''''\<rparr>\<rparr>]\<rparr>]
        initial_app) = []"
  by (simp add: run_def step_def commit_list initial_app_def derive_names_def feature_name_def
      truthy_def filter_first_index_def array_sort_def)

text \<open>
  Claim C2. In every state reachable by any sequence of events (layer clicks, dropdown
  selections, panel closes, tab clicks, timeouts, settled fetches) at most one layer carries
  the highlight style. \<^verbatim>\<open>selectConservancyByName\<close> gives a layer the highlight style
  only in the state left by lines 173-177, in which the layer highlighted before has been
  reverted and no layer carries the highlight style.
\<close>

theorem at_most_one_highlight:
  assumes "reachable e s"
  shows "(\<forall>l l'. layer_style s l = highlightStyle \<and> layer_style s l' = highlightStyle
            \<longrightarrow> l = l') \<and>
         (\<forall>name u.
            let t = revert_selected_layer
                      (if u then s\<lparr>selectedConservancy := or_empty name\<rparr> else s)
            in (\<forall>l. layer_style t l \<noteq> highlightStyle) \<and>
               (mapRef s \<and> truthy name \<longrightarrow>
                  selectConservancyByName e name u s =
                    (case lookup_layer e (layerMapRef s) (or_empty name) of
                       None \<Rightarrow> t
                     | Some l \<Rightarrow> highlight_layer l t)))"
proof (intro conjI allI impI)
  from assms have i: "inv_highlight s" using reachable_inv by (simp add: app_inv_def)
  fix l l'
  assume "layer_style s l = highlightStyle \<and> layer_style s l' = highlightStyle"
  with i have "selectedLayerRef s = Some l" "selectedLayerRef s = Some l'"
    by (simp_all add: inv_highlight_def)
  then show "l = l'" by simp
next
  from assms have i: "inv_highlight s" using reachable_inv by (simp add: app_inv_def)
  fix name u
  let ?s1 = "if u then s\<lparr>selectedConservancy := or_empty name\<rparr> else s"
  have "inv_highlight ?s1" using i by (simp add: set_selected_inv_highlight)
  then have n: "\<forall>l. layer_style (revert_selected_layer ?s1) l \<noteq> highlightStyle"
    by (simp add: revert_no_highlight)
  have "mapRef s \<and> truthy name \<longrightarrow>
      selectConservancyByName e name u s =
        (case lookup_layer e (layerMapRef s) (or_empty name) of
           None \<Rightarrow> revert_selected_layer ?s1
         | Some l \<Rightarrow> highlight_layer l (revert_selected_layer ?s1))"
    by (cases u) (simp_all add: selectConservancyByName_def Let_def revert_frame)
  with n show "let t = revert_selected_layer ?s1
      in (\<forall>l. layer_style t l \<noteq> highlightStyle) \<and>
         (mapRef s \<and> truthy name \<longrightarrow>
            selectConservancyByName e name u s =
              (case lookup_layer e (layerMapRef s) (or_empty name) of
                 None \<Rightarrow> t
               | Some l \<Rightarrow> highlight_layer l t))"
    by (simp add: Let_def)
qed

theorem at_most_one_highlight_witness:
  "reachable env0
     (run env0 (two_regions @ [LayerClick (polygon 1), DropdownChange ''Sera'']) initial_app) \<and>
   layer_style
     (run env0 (two_regions @ [LayerClick (polygon 1), DropdownChange ''Sera'']) initial_app)
     (polygon 2) = highlightStyle \<and>
   layer_style
     (run env0 (two_regions @ [LayerClick (polygon 1), DropdownChange ''Sera'']) initial_app)
     (polygon 1) = conservancyStyle \<and>
   (\<forall>l. layer_style
          (revert_selected_layer
            (run env0 (two_regions @ [LayerClick (polygon 1), DropdownChange ''Sera''])
               initial_app)) l \<noteq> highlightStyle)"
proof -
  let ?s = "run env0 (two_regions @ [LayerClick (polygon 1), DropdownChange ''Sera'']) initial_app"
  have r: "reachable env0 ?s" by (rule reachable_two_regions)
  have a: "layer_style ?s (polygon 2) = highlightStyle"
    by (simp add: model_defs example_defs)
  have b: "layer_style ?s (polygon 1) = conservancyStyle"
    by (simp add: model_defs example_defs)
  from at_most_one_highlight [OF r]
  have "\<forall>l. layer_style (revert_selected_layer (if False then ?s\<lparr>selectedConservancy := or_empty None\<rparr> else ?s)) l \<noteq> highlightStyle"
    unfolding Let_def by blast
  with r a b show ?thesis by simp
qed

text \<open>
  Claim C3. With the panel open on a selected region, a click on a tab other than the
  active one issues exactly one new chart fetch; its URL is \<^verbatim>\<open>BASE_URL\<close> followed by
  \<^verbatim>\<open>figs/<region>/<region><suffix>.json\<close>, with the suffix of the newly active tab, which
  is one of the three fixed strings; the region stays selected.
\<close>

theorem tab_switch_fetches_once:
  assumes "side_panel s = Some p" and "selectedConservancy s = name" and "name \<noteq> []"
    and "t \<in> set TAB_CONFIG" and "tab_id t \<noteq> activeTabId p"
  shows "chart_fetches (step e (TabClick (tab_id t)) s) =
           chart_fetches s @
           [BASE_URL e @ ''figs/'' @ name @ ''/'' @ name @ suffix t @ ''.json''] \<and>
         suffix t \<in> {''_GroundCover'', ''_NDVI'', ''_Rainfall''} \<and>
         selectedConservancy (step e (TabClick (tab_id t)) s) = name \<and>
         side_panel (step e (TabClick (tab_id t)) s) =
           Some (p\<lparr>activeTabId := tab_id t, loading := True, error := False, figure := JNull,
                   inflight := inflight p + 1\<rparr>)"
proof -
  from assms(4) have mem: "tab_id t \<in> tab_id ` set TAB_CONFIG" by (rule imageI)
  let ?p = "p\<lparr>activeTabId := tab_id t\<rparr>"
  from assms(1,5) mem
  have st: "step e (TabClick (tab_id t)) s = run_fetch_effect e ?p s"
    by (simp add: step_def)
  have fe: "fetch_effect (BASE_URL e) name ?p =
      Done (?p\<lparr>loading := True, error := False, figure := JNull, inflight := inflight p + 1\<rparr>,
            [fileName (BASE_URL e) name t])"
    using assms(3) find_TAB_CONFIG [OF assms(4)] by (simp add: fetch_effect_def Let_def)
  have suf: "suffix t \<in> {''_GroundCover'', ''_NDVI'', ''_Rainfall''}"
    using assms(4) by (auto simp: TAB_CONFIG_def)
  show ?thesis
    unfolding st using fe suf assms(2)
    by (simp add: run_fetch_effect_def fileName_def)
qed

theorem tab_switch_fetches_once_witness:
  "side_panel (run env0 (two_regions @ [DropdownChange ''Sera'']) initial_app) =
     Some \<lparr>activeTabId = ''fc'', figure = JNull, loading = True, error = False, inflight = 1\<rparr> \<and>
   selectedConservancy (run env0 (two_regions @ [DropdownChange ''Sera'']) initial_app) =
     ''Sera'' \<and>
   ndvi_tab \<in> set TAB_CONFIG \<and>
   chart_fetches (run env0 (two_regions @ [DropdownChange ''Sera'']) initial_app) =
     [''/figs/Sera/Sera_GroundCover.json''] \<and>
   chart_fetches
     (step env0 (TabClick ''ndvi'')
        (run env0 (two_regions @ [DropdownChange ''Sera'']) initial_app)) =
     [''/figs/Sera/Sera_GroundCover.json'', ''/figs/Sera/Sera_NDVI.json'']"
proof -
  let ?s = "run env0 (two_regions @ [DropdownChange ''Sera'']) initial_app"
  let ?p = "\<lparr>activeTabId = ''fc'', figure = JNull, loading = True, error = False, inflight = 1\<rparr>"
  have p: "side_panel ?s = Some ?p" by (simp add: model_defs example_defs)
  have n: "selectedConservancy ?s = ''Sera''" by (simp add: model_defs example_defs)
  have ne: "''Sera'' \<noteq> []" by simp
  have m: "ndvi_tab \<in> set TAB_CONFIG" by (simp add: ndvi_tab_def TAB_CONFIG_def)
  have d: "tab_id ndvi_tab \<noteq> activeTabId ?p" by (simp add: ndvi_tab_def)
  have f: "chart_fetches ?s = [''/figs/Sera/Sera_GroundCover.json'']"
    by (simp add: model_defs example_defs)
  have b: "BASE_URL env0 = ''/''" by (simp add: env0_def)
  from tab_switch_fetches_once [OF p n ne m d, of env0]
  have "chart_fetches (step env0 (TabClick ''ndvi'') ?s) =
      [''/figs/Sera/Sera_GroundCover.json'', ''/figs/Sera/Sera_NDVI.json'']"
    by (simp add: f b ndvi_tab_def)
  with p n m f show ?thesis by (intro conjI)
qed

text \<open>
  Claim C4, as the code has it. When a fetch of the mounted panel settles in failure (a
  rejection, a status that is not ok, or a body that does not parse), the panel ends with
  the error flag set and loading cleared, and with the figure it held before: the effect
  clears the figure when it starts, so unless another fetch of the panel has succeeded since,
  no figure is stored and the message is rendered without a chart. Every failure leaves the
  same state, a parse failure like any other.
\<close>

theorem failed_fetch_shows_not_found:
  assumes "side_panel s = Some p" and "inflight p \<noteq> 0" and "fetch_result r = Inl err"
  shows "side_panel (step e (ChartFetchSettled r) s) =
           Some (p\<lparr>error := True, loading := False, inflight := inflight p - 1\<rparr>) \<and>
         (figure p = JNull \<longrightarrow>
            renders_not_found (settle r p) \<and> \<not> renders_plot (settle r p) \<and>
            \<not> renders_loading (settle r p)) \<and>
         (\<forall>b n q. n \<noteq> [] \<longrightarrow> figure (fst (state_of (fetch_effect b n q))) = JNull) \<and>
         (\<forall>r' err'. fetch_result r' = Inl err' \<longrightarrow>
            step e (ChartFetchSettled r') s = step e (ChartFetchSettled r) s)"
proof -
  have 1: "side_panel (step e (ChartFetchSettled r) s) =
      Some (p\<lparr>error := True, loading := False, inflight := inflight p - 1\<rparr>)"
    using assms by (simp add: step_def settle_failure)
  have 2: "figure p = JNull \<longrightarrow>
      renders_not_found (settle r p) \<and> \<not> renders_plot (settle r p) \<and>
      \<not> renders_loading (settle r p)"
    using assms(3)
    by (simp add: settle_failure renders_not_found_def renders_plot_def renders_loading_def)
  have 3: "\<forall>b n q. n \<noteq> [] \<longrightarrow> figure (fst (state_of (fetch_effect b n q))) = JNull"
    by (simp add: fetch_effect_def Let_def split: option.splits)
  have 4: "\<forall>r' err'. fetch_result r' = Inl err' \<longrightarrow>
      step e (ChartFetchSettled r') s = step e (ChartFetchSettled r) s"
    using assms by (simp add: step_def settle_failure)
  from 1 2 3 4 show ?thesis by (intro conjI)
qed

theorem failed_fetch_shows_not_found_witness:
  "side_panel (run env0 (two_regions @ [DropdownChange ''Sera'']) initial_app) =
     Some \<lparr>activeTabId = ''fc'', figure = JNull, loading = True, error = False, inflight = 1\<rparr> \<and>
   fetch_result (Response False None) = Inl FileNotFound \<and>
   fetch_result (Response True None) = Inl SyntaxError \<and>
   side_panel
     (step env0 (ChartFetchSettled (Response False None))
        (run env0 (two_regions @ [DropdownChange ''Sera'']) initial_app)) =
     Some \<lparr>activeTabId = ''fc'', figure = JNull, loading = False, error = True, inflight = 0\<rparr> \<and>
   step env0 (ChartFetchSettled (Response True None))
     (run env0 (two_regions @ [DropdownChange ''Sera'']) initial_app) =
   step env0 (ChartFetchSettled (Response False None))
     (run env0 (two_regions @ [DropdownChange ''Sera'']) initial_app)"
proof -
  let ?s = "run env0 (two_regions @ [DropdownChange ''Sera'']) initial_app"
  let ?p = "\<lparr>activeTabId = ''fc'', figure = JNull, loading = True, error = False, inflight = 1\<rparr>"
  have p: "side_panel ?s = Some ?p" by (simp add: model_defs example_defs)
  have i: "inflight ?p \<noteq> 0" by simp
  have f: "fetch_result (Response False None) = Inl FileNotFound" by (simp add: fetch_result_def)
  have g: "fetch_result (Response True None) = Inl SyntaxError" by (simp add: fetch_result_def)
  note t = failed_fetch_shows_not_found [OF p i f, of env0]
  from t have c1: "side_panel (step env0 (ChartFetchSettled (Response False None)) ?s) =
      Some \<lparr>activeTabId = ''fc'', figure = JNull, loading = False, error = True, inflight = 0\<rparr>"
    by simp
  from t g have c2: "step env0 (ChartFetchSettled (Response True None)) ?s =
      step env0 (ChartFetchSettled (Response False None)) ?s"
    by blast
  show ?thesis by (intro conjI) (rule p f g c1 c2)+
qed

text \<open>
  The claim as stated fails when an earlier fetch succeeds between the start of the effect
  and the failure: the panel then holds the error flag and the stale figure, and renders both.
\<close>

theorem stale_success_then_failure_shows_both:
  "side_panel
     (run env0
        (two_regions @
         [DropdownChange ''Sera'', TabClick ''ndvi'',
          ChartFetchSettled (Response True (Some (JDocument 7))),
          ChartFetchSettled (Response False None)])
        initial_app) =
     Some \<lparr>activeTabId = ''ndvi'', figure = JDocument 7, loading = False, error = True,
            inflight = 0\<rparr> \<and>
   renders_not_found
     \<lparr>activeTabId = ''ndvi'', figure = JDocument 7, loading = False, error = True,
      inflight = 0\<rparr> \<and>
   renders_plot
     \<lparr>activeTabId = ''ndvi'', figure = JDocument 7, loading = False, error = True,
      inflight = 0\<rparr>"
  by (simp add: model_defs example_defs renders_not_found_def renders_plot_def)




text \<open>
  Claim C6. In every reachable state with a selected region, closing the panel empties the
  selected name and unmounts the panel; every layer then has the default style; the reference
  to the layer highlighted before (and to any referenced layer that has
  \<^verbatim>\<open>setStyle\<close>) is dropped; no call is made to the map and the pending debounce
  timeout is cleared, so no \<^verbatim>\<open>fitBounds\<close> follows; no chart fetch is issued and a fetch
  that settles later changes nothing; the collection, the name list, the name-to-layer table,
  the click handlers and the map flags are unchanged.
\<close>

theorem close_panel_clears:
  assumes "reachable e s" and "selectedConservancy s \<noteq> []"
  shows "selectedConservancy (step e PanelClose s) = [] \<and>
         side_panel (step e PanelClose s) = None \<and>
         (\<forall>l. layer_style (step e PanelClose s) l = conservancyStyle) \<and>
         (\<forall>l. layer_style s l = highlightStyle \<longrightarrow> selectedLayerRef (step e PanelClose s) = None) \<and>
         (\<forall>l. selectedLayerRef s = Some l \<and> has_setStyle l \<longrightarrow>
              selectedLayerRef (step e PanelClose s) = None) \<and>
         (selectedLayerRef s = None \<longrightarrow> selectedLayerRef (step e PanelClose s) = None) \<and>
         map_calls (step e PanelClose s) = map_calls s \<and>
         debounce_timer (step e PanelClose s) = None \<and>
         invalidate_timers (step e PanelClose s) = invalidate_timers s \<and>
         chart_fetches (step e PanelClose s) = chart_fetches s \<and>
         (\<forall>r. step e (ChartFetchSettled r) (step e PanelClose s) = step e PanelClose s) \<and>
         conservancyData (step e PanelClose s) = conservancyData s \<and>
         conservancyList (step e PanelClose s) = conservancyList s \<and>
         layerMapRef (step e PanelClose s) = layerMapRef s \<and>
         click_handler (step e PanelClose s) = click_handler s \<and>
         mapReady (step e PanelClose s) = mapReady s \<and>
         mapRef (step e PanelClose s) = mapRef s"
proof -
  from assms(1) have i: "inv_highlight s" "inv_panel s"
    using reachable_inv by (simp_all add: app_inv_def)
  let ?t = "state_of (onClose s)"
  from i(2) assms(2) obtain p where p: "side_panel s = Some p"
    by (auto simp: inv_panel_def)
  then have st: "step e PanelClose s = commit e s ?t" by (simp add: step_def)
  have sel: "selectedConservancy ?t = []" by (simp add: onClose_frame)
  have closed: "side_panel (commit e s ?t) = None" using sel by (rule commit_panel_closed)
  have style: "\<forall>l. layer_style (commit e s ?t) l = conservancyStyle"
    using onClose_no_highlight [OF i(1)] by (simp add: commit_frame style_cases)
  have ref1: "\<forall>l. selectedLayerRef s = Some l \<and> has_setStyle l \<longrightarrow>
      selectedLayerRef (commit e s ?t) = None"
    by (simp add: commit_frame onClose_ref)
  have ref2: "selectedLayerRef s = None \<longrightarrow> selectedLayerRef (commit e s ?t) = None"
    by (simp add: commit_frame onClose_ref)
  have ref3: "\<forall>l. layer_style s l = highlightStyle \<longrightarrow> selectedLayerRef (commit e s ?t) = None"
    using i(1) by (auto simp: inv_highlight_def commit_frame onClose_ref)
  have timer: "debounce_timer (commit e s ?t) = None"
    using assms(2) by (simp add: commit_timer app_effects_timer onClose_frame)
  have fetches: "chart_fetches (commit e s ?t) = chart_fetches s"
    using sel by (simp add: commit_fetches_closed onClose_frame)
  have settled: "\<forall>r. step e (ChartFetchSettled r) (commit e s ?t) = commit e s ?t"
    using closed by (simp add: step_def)
  have lst: "conservancyList (commit e s ?t) = conservancyList s"
    by (simp add: commit_list_same onClose_frame)
  show ?thesis
    unfolding st
    using closed style ref1 ref2 ref3 timer fetches settled lst
    by (simp add: commit_frame onClose_frame)
qed

theorem close_panel_clears_witness:
  "reachable env0 (run env0 (two_regions @ [DropdownChange ''Naapu'']) initial_app) \<and>
   selectedConservancy (run env0 (two_regions @ [DropdownChange ''Naapu'']) initial_app) \<noteq> [] \<and>
   layer_style (run env0 (two_regions @ [DropdownChange ''Naapu'']) initial_app) (polygon 1) =
     highlightStyle \<and>
   debounce_timer (run env0 (two_regions @ [DropdownChange ''Naapu'']) initial_app) =
     Some (300, ''Naapu'') \<and>
   selectedConservancy
     (step env0 PanelClose (run env0 (two_regions @ [DropdownChange ''Naapu'']) initial_app)) = [] \<and>
   side_panel
     (step env0 PanelClose (run env0 (two_regions @ [DropdownChange ''Naapu'']) initial_app)) = None \<and>
   layer_style
     (step env0 PanelClose (run env0 (two_regions @ [DropdownChange ''Naapu'']) initial_app))
     (polygon 1) = conservancyStyle \<and>
   selectedLayerRef
     (step env0 PanelClose (run env0 (two_regions @ [DropdownChange ''Naapu'']) initial_app)) = None \<and>
   debounce_timer
     (step env0 PanelClose (run env0 (two_regions @ [DropdownChange ''Naapu'']) initial_app)) = None"
proof -
  let ?s = "run env0 (two_regions @ [DropdownChange ''Naapu'']) initial_app"
  have r: "reachable env0 ?s" by (rule reachable_two_regions)
  have n: "selectedConservancy ?s \<noteq> []" by (simp add: model_defs example_defs)
  have h: "layer_style ?s (polygon 1) = highlightStyle" by (simp add: model_defs example_defs)
  have d: "debounce_timer ?s = Some (300, ''Naapu'')" by (simp add: model_defs example_defs)
  note t = close_panel_clears [OF r n]
  from t have c1: "selectedConservancy (step env0 PanelClose ?s) = []" by blast
  from t have c2: "side_panel (step env0 PanelClose ?s) = None" by blast
  from t have c3: "layer_style (step env0 PanelClose ?s) (polygon 1) = conservancyStyle" by blast
  from t h have c4: "selectedLayerRef (step env0 PanelClose ?s) = None" by blast
  from t have c5: "debounce_timer (step env0 PanelClose ?s) = None" by blast
  show ?thesis by (intro conjI) (rule r n h d c1 c2 c3 c4 c5)+
qed

text \<open>
  Claim C7. In every reachable state, a click on a layer registered with a truthy name and
  the selection of that name in the dropdown lead to the same state: the name is selected,
  the layer that the name resolves to is referenced (and highlighted), and the panel is
  mounted.
\<close>

theorem click_equals_dropdown:
  assumes "reachable e s" and "click_handler s l = Some (Some n)" and "n \<noteq> []"
  shows "step e (LayerClick l) s = step e (DropdownChange n) s \<and>
         selectedConservancy (step e (LayerClick l) s) = n \<and>
         selectedLayerRef (step e (LayerClick l) s) =
           (if mapRef s then lookup_layer e (layerMapRef s) n else None) \<and>
         side_panel (step e (LayerClick l) s) \<noteq> None"
proof -
  from assms(1) have i: "inv_map s" using reachable_inv by (simp add: app_inv_def)
  then have m: "mapReady s = mapRef s" by (simp add: inv_map_def)
  let ?t = "selectConservancyByName e (Some n) True s"
  have st: "step e (LayerClick l) s = commit e s ?t"
    using assms(2) by (simp add: step_def)
  have eq: "step e (LayerClick l) s = step e (DropdownChange n) s"
    unfolding st by (simp add: step_def select_as_handle [OF m])
  have sel: "selectedConservancy ?t = n" by (simp add: select_frame or_empty_def)
  have ref: "selectedLayerRef ?t = (if mapRef s then lookup_layer e (layerMapRef s) n else None)"
  proof (cases "mapRef s")
    case True
    with assms(3) select_ref [where s = s and name = "Some n" and u = True and e = e]
    show ?thesis
      by (simp add: truthy_def or_empty_def)
  next
    case False
    with i have "selectedLayerRef s = None" by (simp add: inv_map_def)
    with False select_ref_no_map [where s = s and name = "Some n" and u = True and e = e]
    show ?thesis by simp
  qed
  have mounted: "side_panel (commit e s ?t) \<noteq> None"
    using sel assms(3) by (intro commit_panel_open) simp
  have sel': "selectedConservancy (commit e s ?t) = n" using sel by (simp add: commit_frame)
  have ref': "selectedLayerRef (commit e s ?t) =
      (if mapRef s then lookup_layer e (layerMapRef s) n else None)"
    using ref by (simp add: commit_frame)
  show ?thesis
  proof (intro conjI)
    show "step e (LayerClick l) s = step e (DropdownChange n) s" by (rule eq)
    show "selectedConservancy (step e (LayerClick l) s) = n" unfolding st by (rule sel')
    show "selectedLayerRef (step e (LayerClick l) s) =
        (if mapRef s then lookup_layer e (layerMapRef s) n else None)"
      unfolding st by (rule ref')
    show "side_panel (step e (LayerClick l) s) \<noteq> None" unfolding st by (rule mounted)
  qed
qed

theorem click_equals_dropdown_witness:
  "reachable env0 (run env0 two_regions initial_app) \<and>
   click_handler (run env0 two_regions initial_app) (polygon 2) = Some (Some ''Sera'') \<and>
   step env0 (LayerClick (polygon 2)) (run env0 two_regions initial_app) =
     step env0 (DropdownChange ''Sera'') (run env0 two_regions initial_app) \<and>
   selectedConservancy (step env0 (LayerClick (polygon 2)) (run env0 two_regions initial_app)) =
     ''Sera'' \<and>
   selectedLayerRef (step env0 (LayerClick (polygon 2)) (run env0 two_regions initial_app)) =
     Some (polygon 2)"
proof -
  let ?s = "run env0 two_regions initial_app"
  have r: "reachable env0 ?s" using reachable_two_regions [of "[]"] by simp
  have h: "click_handler ?s (polygon 2) = Some (Some ''Sera'')"
    by (simp add: model_defs example_defs)
  have n: "''Sera'' \<noteq> []" by simp
  have m: "mapRef ?s" by (simp add: model_defs example_defs)
  have lk: "lookup_layer env0 (layerMapRef ?s) ''Sera'' = Some (polygon 2)"
    by (simp add: model_defs example_defs)
  note t = click_equals_dropdown [OF r h n]
  have e1: "step env0 (LayerClick (polygon 2)) ?s = step env0 (DropdownChange ''Sera'') ?s"
    by (rule conjunct1 [OF t])
  have e2: "selectedConservancy (step env0 (LayerClick (polygon 2)) ?s) = ''Sera''"
    by (rule conjunct1 [OF conjunct2 [OF t]])
  have e3: "selectedLayerRef (step env0 (LayerClick (polygon 2)) ?s) = Some (polygon 2)"
    using conjunct1 [OF conjunct2 [OF conjunct2 [OF t]]] m lk by (simp only: if_True)
  show ?thesis by (intro conjI) (rule r h e1 e2 e3)+
qed

text \<open>
  Claim C8. Selecting a name in the dropdown a second time changes neither the style of any
  layer, nor the referenced layer, nor the selected name, nor the panel (active tab, figure,
  loading and error flags).
\<close>

theorem dropdown_twice_idempotent:
  "layer_style (step e (DropdownChange n) (step e (DropdownChange n) s)) =
     layer_style (step e (DropdownChange n) s) \<and>
   selectedLayerRef (step e (DropdownChange n) (step e (DropdownChange n) s)) =
     selectedLayerRef (step e (DropdownChange n) s) \<and>
   selectedConservancy (step e (DropdownChange n) (step e (DropdownChange n) s)) =
     selectedConservancy (step e (DropdownChange n) s) \<and>
   side_panel (step e (DropdownChange n) (step e (DropdownChange n) s)) =
     side_panel (step e (DropdownChange n) s)"
proof -
  let ?h = "handleSelectConservancy e (Some n) s"
  let ?s1 = "commit e s ?h"
  let ?h1 = "handleSelectConservancy e (Some n) ?s1"
  have st1: "step e (DropdownChange n) s = ?s1" by (simp add: step_def)
  have st2: "step e (DropdownChange n) ?s1 = commit e ?s1 ?h1" by (simp add: step_def)
  have post: "mapReady ?s1 \<and> mapRef ?s1 \<longrightarrow>
     selectedLayerRef ?s1 =
       (if truthy (Some n) then lookup_layer e (layerMapRef ?s1) (or_empty (Some n)) else None) \<and>
     (\<forall>l. selectedLayerRef ?s1 = Some l \<and> has_setStyle l \<longrightarrow> layer_style ?s1 l = highlightStyle)"
    using handle_post [where s = s and name = "Some n" and e = e]
    by (simp add: commit_frame handle_frame)
  note stable = handle_stable [OF post]
  have sel: "selectedConservancy ?h1 = selectedConservancy ?s1"
    by (simp add: handle_frame commit_frame)
  have "side_panel (commit e ?s1 ?h1) = side_panel ?s1"
    using sel
  proof (rule commit_panel_same)
    show "side_panel ?h1 = side_panel ?s1" by (simp add: handle_frame)
    show "(side_panel ?s1 = None) = (selectedConservancy ?s1 = [])"
      by (simp add: commit_panel_iff commit_frame)
  qed
  with stable sel show ?thesis
    unfolding st1 st2 by (simp add: commit_frame)
qed

theorem dropdown_twice_idempotent_witness:
  "layer_style (step env0 (DropdownChange ''Sera'')
      (step env0 (DropdownChange ''Sera'') (run env0 two_regions initial_app))) (polygon 2) =
     highlightStyle \<and>
   layer_style (step env0 (DropdownChange ''Sera'') (run env0 two_regions initial_app))
     (polygon 2) = highlightStyle \<and>
   selectedLayerRef (step env0 (DropdownChange ''Sera'')
      (step env0 (DropdownChange ''Sera'') (run env0 two_regions initial_app))) =
     Some (polygon 2) \<and>
   side_panel (step env0 (DropdownChange ''Sera'')
      (step env0 (DropdownChange ''Sera'') (run env0 two_regions initial_app))) =
     Some \<lparr>activeTabId = ''fc'', figure = JNull, loading = True, error = False, inflight = 1\<rparr>"
proof -
  let ?s = "run env0 two_regions initial_app"
  let ?s1 = "step env0 (DropdownChange ''Sera'') ?s"
  let ?s2 = "step env0 (DropdownChange ''Sera'') ?s1"
  note t = dropdown_twice_idempotent [of env0 "''Sera''" ?s]
  have a: "layer_style ?s1 (polygon 2) = highlightStyle" by (simp add: model_defs example_defs)
  have b: "selectedLayerRef ?s1 = Some (polygon 2)" by (simp add: model_defs example_defs)
  have c: "side_panel ?s1 =
      Some \<lparr>activeTabId = ''fc'', figure = JNull, loading = True, error = False, inflight = 1\<rparr>"
    by (simp add: model_defs example_defs)
  from t have t1: "layer_style ?s2 = layer_style ?s1" by (rule conjunct1)
  from t have t2: "selectedLayerRef ?s2 = selectedLayerRef ?s1" by blast
  from t have t3: "side_panel ?s2 = side_panel ?s1" by blast
  show ?thesis
    by (intro conjI) (simp_all only: t1 t2 t3 a b c)
qed




text \<open>
  Claim C10: a feature whose properties lack a truthy \<^verbatim>\<open>NAME\<close> still receives a click
  handler, and a click on it clears the selection. The code does not do this for a feature
  whose \<^verbatim>\<open>properties\<close> member is null. Line 157 guards the access and takes the name
  of such a feature to be falsy; line 217 reads \<^verbatim>\<open>feature.properties.NAME\<close> unguarded
  and throws before line 222 is reached, so the layer gets no click handler and a click on
  it leaves the state, with the selection, as it was.
\<close>

theorem null_properties_no_click_handler:
  "feature_name null_properties_feature = None \<and>
   onEachFeature env0 null_properties_feature (polygon 3) (run env0 two_regions initial_app) =
     Threw TypeError (run env0 two_regions initial_app) \<and>
   click_handler
     (run env0 (two_regions @ [LayerAdded null_properties_feature (polygon 3)]) initial_app)
     (polygon 3) = None \<and>
   selectedConservancy
     (run env0
        (two_regions @ [LayerAdded null_properties_feature (polygon 3), LayerClick (polygon 1)])
        initial_app) = ''Naapu'' \<and>
   run env0
     (two_regions @
      [LayerAdded null_properties_feature (polygon 3), LayerClick (polygon 1),
       LayerClick (polygon 3)])
     initial_app =
   run env0
     (two_regions @ [LayerAdded null_properties_feature (polygon 3), LayerClick (polygon 1)])
     initial_app"
proof -
  let ?evs = "two_regions @ [LayerAdded null_properties_feature (polygon 3), LayerClick (polygon 1)]"
  have a: "feature_name null_properties_feature = None"
    by (simp add: feature_name_def null_properties_feature_def)
  have b: "onEachFeature env0 null_properties_feature (polygon 3)
      (run env0 two_regions initial_app) = Threw TypeError (run env0 two_regions initial_app)"
    by (simp add: onEachFeature_def null_properties_feature_def)
  have c: "click_handler
      (run env0 (two_regions @ [LayerAdded null_properties_feature (polygon 3)]) initial_app)
      (polygon 3) = None"
    by (simp add: model_defs example_defs null_properties_feature_def)
  have d: "selectedConservancy (run env0 ?evs initial_app) = ''Naapu''"
    by (simp add: model_defs example_defs null_properties_feature_def)
  have h: "click_handler (run env0 ?evs initial_app) (polygon 3) = None"
    by (simp add: model_defs example_defs null_properties_feature_def)
  have "run env0 (?evs @ [LayerClick (polygon 3)]) initial_app =
      step env0 (LayerClick (polygon 3)) (run env0 ?evs initial_app)"
    by (simp add: run_def)
  also have "\<dots> = run env0 ?evs initial_app"
    using h by (simp add: step_def)
  finally have e: "run env0 (?evs @ [LayerClick (polygon 3)]) initial_app =
      run env0 ?evs initial_app" .
  from a b c d e show ?thesis by simp
qed

end
